theory Spec2Isabelle
  imports Complex_Main "HOL-Library.AList"
begin

section \<open>JavaScript values\<close>

text \<open>
  The utilities work on dynamically typed data: the taxpayer record is a nested
  structure of objects, arrays and scalars. Numbers are IEEE doubles in the source; the
  code under study only compares them, takes absolute values and rounds to an integer,
  all of which are exact on the represented value, so a number is modelled by its exact
  real value or one of the three special values. The two zeros are identified: no
  function below distinguishes them.

  An object is the association list of its own properties in insertion order. An array
  has its elements and, besides them, the named properties that an assignment such as
  \<open>arr["total"] = v\<close> stores on it; a hole of a sparse array is represented by the
  element \<open>undefined\<close>, which is what it reads as, the array prototype having no
  member with a numeric name. Every property read also looks into the prototype chain, which
  holds built-in functions and prototype objects that are not data: such a value is a
  \<open>JBuiltin\<close>, identified by a name. Getters and proxies in the data are outside the
  model.
\<close>

datatype jsnum = NaN | PosInf | NegInf | Fin real

datatype jsv =
    JUndef
  | JNull
  | JBool bool
  | JNum jsnum
  | JStr string
  | JArr "jsv list" "(string \<times> jsv) list"
  | JObj "(string \<times> jsv) list"
  | JBuiltin string

text \<open>
  Exceptions of the source are values. \<open>InvalidJSONPath\<close> is the \<open>Error\<close> the path
  functions throw themselves; the others are raised by the run-time system.
  \<open>Unmodelled\<close> marks an assignment whose effect the model does not follow: on a
  built-in object, through an inherited setter such as \<open>__proto__\<close>, or to the
  \<open>length\<close> of an array.
\<close>

datatype js_error =
    InvalidJSONPath string
  | TypeError
  | RangeError
  | SyntaxError
  | Unmodelled

subsection \<open>Numbers\<close>

fun num_less :: "jsnum \<Rightarrow> jsnum \<Rightarrow> bool" where
  "num_less NaN _ = False"
| "num_less _ NaN = False"
| "num_less (Fin a) (Fin b) = (a < b)"
| "num_less NegInf NegInf = False"
| "num_less NegInf _ = True"
| "num_less _ NegInf = False"
| "num_less PosInf _ = False"
| "num_less _ PosInf = True"

fun num_equal :: "jsnum \<Rightarrow> jsnum \<Rightarrow> bool" where
  "num_equal NaN _ = False"
| "num_equal _ NaN = False"
| "num_equal a b = (a = b)"

definition num_less_eq :: "jsnum \<Rightarrow> jsnum \<Rightarrow> bool" where
  "num_less_eq a b = (num_less a b \<or> num_equal a b)"

fun num_abs :: "jsnum \<Rightarrow> jsnum" where
  "num_abs NaN = NaN"
| "num_abs PosInf = PosInf"
| "num_abs NegInf = PosInf"
| "num_abs (Fin a) = Fin \<bar>a\<bar>"

text \<open>\<open>Math.round\<close>: the nearest integer, ties towards positive infinity.\<close>

fun num_round :: "jsnum \<Rightarrow> jsnum" where
  "num_round (Fin a) = Fin (of_int \<lfloor>a + 1 / 2\<rfloor>)"
| "num_round x = x"

subsection \<open>Characters and numerals\<close>

definition is_digit :: "char \<Rightarrow> bool" where
  "is_digit c = (c \<in> set ''0123456789'')"

definition is_word :: "char \<Rightarrow> bool" where
  "is_word c = (c \<in> set ''abcdefghijklmnopqrstuvwxyzABCDEFGHIJKLMNOPQRSTUVWXYZ0123456789_'')"

definition digit_val :: "char \<Rightarrow> nat" where
  "digit_val c = of_char c - 48"

definition parse_nat :: "string \<Rightarrow> nat" where
  "parse_nat s = foldl (\<lambda>n c. 10 * n + digit_val c) 0 s"

text \<open>The decimal numeral of a natural number.\<close>

definition digit_char :: "nat \<Rightarrow> char" where
  "digit_char d = ''0123456789'' ! d"

function show_nat :: "nat \<Rightarrow> string" where
  "show_nat n = (if n < 10 then [digit_char n] else show_nat (n div 10) @ [digit_char (n mod 10)])"
  by pat_completeness auto
termination
  by (relation "measure (\<lambda>n. n)") auto

text \<open>
  An array index is an integer below \<open>2^32 - 1\<close>; a property key denotes one when
  it is the canonical decimal numeral of such an integer.
\<close>

definition max_array_index :: nat where
  "max_array_index = 4294967295"

definition array_index :: "string \<Rightarrow> nat option" where
  "array_index k =
     (if k \<noteq> [] \<and> list_all is_digit k \<and> (k = ''0'' \<or> hd k \<noteq> CHR ''0'')
         \<and> parse_nat k < max_array_index
      then Some (parse_nat k) else None)"

section \<open>Run-time library\<close>

text \<open>
  The conversions, the regular-expression engine and the built-in prototype objects of
  the JavaScript run-time are not part of the program. They are parameters of the
  functions that depend on them:
  \<^item> \<open>Number(v)\<close> and \<open>String(v)\<close> (the latter also used by template literals);
  \<^item> \<open>new RegExp(p).test(s)\<close>, which is \<open>None\<close> when the pattern does not compile
    and a \<open>SyntaxError\<close> is thrown;
  \<^item> \<open>x.toFixed(d)\<close>, which is \<open>None\<close> when a \<open>RangeError\<close> is thrown;
  \<^item> \<open>inherited kind k\<close>, the built-in that a value of the given kind finds under
    the name \<open>k\<close> on its prototype chain (\<open>{}["constructor"]\<close> is the function
    \<open>Object\<close>, \<open>{}["__proto__"]\<close> is \<open>Object.prototype\<close>), if there is one;
  \<^item> \<open>assignable kind k\<close>, whether an assignment to the inherited name \<open>k\<close>
    creates an own property that shadows it (a writable data member) instead of running a
    setter or being refused;
  \<^item> \<open>builtin_prop b k\<close>, the value of \<open>b[k]\<close> for a built-in \<open>b\<close> (of the
    built-ins that data reaches through its prototype chain only \<open>Object.prototype\<close> and
    \<open>Array.prototype\<close> are objects whose properties the program reads, and no read of
    theirs throws);
    \<open>builtin_is_object b\<close>, whether \<open>typeof b\<close> is \<open>"object"\<close> rather than
    \<open>"function"\<close>; and \<open>builtin_is_array b\<close>, the answer of \<open>Array.isArray(b)\<close>;
  \<^item> \<open>large_index_key n\<close>, the property key of the number that \<open>parseInt\<close> reads
    from the decimal numeral of \<open>n\<close> when \<open>n\<close> is \<open>2^53\<close> or more and the number is
    a rounded one.
\<close>

datatype kind = KObject | KArray | KString | KNumber | KBoolean

record builtins =
  Number_of :: "jsv \<Rightarrow> jsnum"
  String_of :: "jsv \<Rightarrow> string"
  RegExp_test :: "string \<Rightarrow> string \<Rightarrow> bool option"
  toFixed :: "jsnum \<Rightarrow> jsnum \<Rightarrow> string option"
  inherited :: "kind \<Rightarrow> string \<Rightarrow> string option"
  assignable :: "kind \<Rightarrow> string \<Rightarrow> bool"
  builtin_prop :: "string \<Rightarrow> string \<Rightarrow> jsv"
  builtin_is_object :: "string \<Rightarrow> bool"
  builtin_is_array :: "string \<Rightarrow> bool"
  large_index_key :: "nat \<Rightarrow> string"

section \<open>Truthiness, \<open>typeof\<close> and properties\<close>

fun falsy :: "jsv \<Rightarrow> bool" where
  "falsy JUndef = True"
| "falsy JNull = True"
| "falsy (JBool b) = (\<not> b)"
| "falsy (JNum n) = (n = NaN \<or> n = Fin 0)"
| "falsy (JStr s) = (s = [])"
| "falsy (JArr _ _) = False"
| "falsy (JObj _) = False"
| "falsy (JBuiltin _) = False"

text \<open>\<open>typeof v === "object"\<close>, which holds of \<open>null\<close>.\<close>

fun typeof_object :: "builtins \<Rightarrow> jsv \<Rightarrow> bool" where
  "typeof_object B JNull = True"
| "typeof_object B (JArr _ _) = True"
| "typeof_object B (JObj _) = True"
| "typeof_object B (JBuiltin b) = builtin_is_object B b"
| "typeof_object B _ = False"

fun nullish :: "jsv \<Rightarrow> bool" where
  "nullish JUndef = True"
| "nullish JNull = True"
| "nullish _ = False"

fun isArray :: "builtins \<Rightarrow> jsv \<Rightarrow> bool" where
  "isArray B (JArr _ _) = True"
| "isArray B (JBuiltin b) = builtin_is_array B b"
| "isArray B _ = False"

text \<open>The own property \<open>k\<close> of a data value, if it has one.\<close>

fun own_prop :: "jsv \<Rightarrow> string \<Rightarrow> jsv option" where
  "own_prop (JObj kvs) k = map_of kvs k"
| "own_prop (JArr xs ps) k =
     (if k = ''length'' then Some (JNum (Fin (of_nat (length xs))))
      else case array_index k of
             Some i \<Rightarrow> (if i < length xs then Some (xs ! i) else None)
           | None \<Rightarrow> map_of ps k)"
| "own_prop (JStr s) k =
     (if k = ''length'' then Some (JNum (Fin (of_nat (length s))))
      else case array_index k of
             Some i \<Rightarrow> (if i < length s then Some (JStr [s ! i]) else None)
           | None \<Rightarrow> None)"
| "own_prop _ k = None"

text \<open>What a value without the own property finds on its prototype chain.\<close>

definition from_proto :: "builtins \<Rightarrow> kind \<Rightarrow> string \<Rightarrow> jsv" where
  "from_proto B kd k = (case inherited B kd k of Some b \<Rightarrow> JBuiltin b | None \<Rightarrow> JUndef)"

text \<open>
  \<open>v[k]\<close> for a value that is neither \<open>null\<close> nor \<open>undefined\<close>, and the read as
  the source performs it, which throws on those two.
\<close>

fun prop_value :: "builtins \<Rightarrow> jsv \<Rightarrow> string \<Rightarrow> jsv" where
  "prop_value B (JObj kvs) k =
     (case own_prop (JObj kvs) k of Some v \<Rightarrow> v | None \<Rightarrow> from_proto B KObject k)"
| "prop_value B (JArr xs ps) k =
     (case own_prop (JArr xs ps) k of Some v \<Rightarrow> v | None \<Rightarrow> from_proto B KArray k)"
| "prop_value B (JStr s) k =
     (case own_prop (JStr s) k of Some v \<Rightarrow> v | None \<Rightarrow> from_proto B KString k)"
| "prop_value B (JNum n) k = from_proto B KNumber k"
| "prop_value B (JBool b) k = from_proto B KBoolean k"
| "prop_value B (JBuiltin b) k = builtin_prop B b k"
| "prop_value B _ k = JUndef"

definition get_prop :: "builtins \<Rightarrow> jsv \<Rightarrow> string \<Rightarrow> js_error + jsv" where
  "get_prop B v k = (if nullish v then Inl TypeError else Inr (prop_value B v k))"

text \<open>
  The property key of the number that \<open>parseInt(_, 10)\<close> reads from a digit string
  denoting \<open>n\<close>: the number is exact below \<open>2^53\<close> and its key is the decimal
  numeral.
\<close>

definition index_key :: "builtins \<Rightarrow> nat \<Rightarrow> string" where
  "index_key B n = (if n < 9007199254740992 then show_nat n else large_index_key B n)"

text \<open>
  \<open>v[index]\<close> for such a number. On an array a number below \<open>2^32 - 1\<close> selects
  an element; any other number names a property.
\<close>

fun index_value :: "builtins \<Rightarrow> jsv \<Rightarrow> nat \<Rightarrow> jsv" where
  "index_value B (JArr xs ps) n =
     (if n < max_array_index
      then (if n < length xs then xs ! n else from_proto B KArray (index_key B n))
      else case map_of ps (index_key B n) of
             Some v \<Rightarrow> v
           | None \<Rightarrow> from_proto B KArray (index_key B n))"
| "index_value B v n = prop_value B v (index_key B n)"

definition get_index :: "builtins \<Rightarrow> jsv \<Rightarrow> nat \<Rightarrow> js_error + jsv" where
  "get_index B v n = (if nullish v then Inl TypeError else Inr (index_value B v n))"

section \<open>JSONPath resolution\<close>

definition starts_with_root :: "string \<Rightarrow> bool" where
  "starts_with_root path = (case path of [] \<Rightarrow> False | c # _ \<Rightarrow> c = CHR ''$'')"

text \<open>\<open>String.prototype.split\<close> on a one-character separator.\<close>

fun split_on :: "char \<Rightarrow> string \<Rightarrow> string list" where
  "split_on d [] = [[]]"
| "split_on d (c # cs) =
     (if c = d then [] # split_on d cs
      else case split_on d cs of
             w # ws \<Rightarrow> (c # w) # ws
           | [] \<Rightarrow> [[c]])"

text \<open>\<open>path.slice(1).split(".").filter((s) => s.length > 0)\<close>\<close>

definition path_segments :: "string \<Rightarrow> string list" where
  "path_segments path = filter (\<lambda>s. s \<noteq> []) (split_on CHR ''.'' (drop 1 path))"

datatype index_spec = Index nat | Wildcard

text \<open>
  The match of \<open>/^(\w+)\[(\d+|\*)\]$/\<close> (with the wildcard allowed) and of
  \<open>/^(\w+)\[(\d+)\]$/\<close> (without). No word character is a bracket, so the name is
  the longest prefix of word characters; the rest must be a bracketed digit string or
  star reaching the end of the segment. The index is the natural number that the digit
  string denotes.
\<close>

definition arrayMatch :: "bool \<Rightarrow> string \<Rightarrow> (string \<times> index_spec) option" where
  "arrayMatch wildcard segment =
     (let propName = takeWhile is_word segment;
          rest = dropWhile is_word segment
      in case rest of
           [] \<Rightarrow> None
         | c # r \<Rightarrow>
            (if propName = [] \<or> c \<noteq> CHR ''['' \<or> r = [] \<or> last r \<noteq> CHR '']'' then None
             else let inner = butlast r
                  in if inner \<noteq> [] \<and> list_all is_digit inner
                     then Some (propName, Index (parse_nat inner))
                     else if wildcard \<and> inner = ''*'' then Some (propName, Wildcard)
                     else None))"

text \<open>
  The loop of \<open>resolveJSONPath\<close> over the remaining segments. Every property read
  is one that throws on \<open>null\<close> and \<open>undefined\<close>; the checks of the loop come before
  the reads, in the order of the source.
\<close>

fun resolve_walk :: "builtins \<Rightarrow> string list \<Rightarrow> jsv \<Rightarrow> js_error + jsv" where
  "resolve_walk B [] current = Inr current"
| "resolve_walk B (segment # rest) current =
     (if current = JNull \<or> current = JUndef then Inr JUndef
      else case arrayMatch True segment of
        Some (propName, indexOrWildcard) \<Rightarrow>
          (if \<not> typeof_object B current then Inr JUndef
           else case get_prop B current propName of
                  Inl e \<Rightarrow> Inl e
                | Inr arr \<Rightarrow>
                    (if \<not> isArray B arr then Inr JUndef
                     else case indexOrWildcard of
                            Wildcard \<Rightarrow> Inr arr
                          | Index n \<Rightarrow>
                              (case get_index B arr n of
                                 Inl e \<Rightarrow> Inl e
                               | Inr element \<Rightarrow> resolve_walk B rest element)))
      | None \<Rightarrow>
          (if \<not> typeof_object B current then Inr JUndef
           else case get_prop B current segment of
                  Inl e \<Rightarrow> Inl e
                | Inr child \<Rightarrow> resolve_walk B rest child))"

definition resolveJSONPath :: "builtins \<Rightarrow> string \<Rightarrow> jsv \<Rightarrow> js_error + jsv" where
  "resolveJSONPath B path data =
     (if \<not> starts_with_root path then Inl (InvalidJSONPath path)
      else resolve_walk B (path_segments path) data)"

definition is_wildcard :: "string \<Rightarrow> bool" where
  "is_wildcard segment = (\<exists>propName. arrayMatch True segment = Some (propName, Wildcard))"

section \<open>JSONPath assignment\<close>

text \<open>
  Assignments mutate the record in place. The record is a tree, so an assignment below
  a container is modelled by returning the updated container. The module is strict-mode
  code: creating a property on a primitive value throws a \<open>TypeError\<close>, as does
  reading or writing a property of \<open>null\<close> or \<open>undefined\<close>.
\<close>

text \<open>\<open>xs[i] = v\<close> on the elements of an array, which grow as needed and leave holes.\<close>

definition array_set :: "jsv list \<Rightarrow> nat \<Rightarrow> jsv \<Rightarrow> jsv list" where
  "array_set xs i v =
     (if i < length xs then xs[i := v]
      else xs @ replicate (i - length xs) JUndef @ [v])"

text \<open>
  An assignment to the key \<open>k\<close> of an object or array stores an own property when
  the property exists already, when nothing on the prototype chain has that name, or
  when the inherited member is one that an assignment shadows.
\<close>

definition can_create :: "builtins \<Rightarrow> kind \<Rightarrow> bool \<Rightarrow> string \<Rightarrow> bool" where
  "can_create B kd own k = (own \<or> inherited B kd k = None \<or> assignable B kd k)"

text \<open>
  The same assignment on a primitive value: strict-mode code may not create or change
  its properties; only an inherited setter would run instead.
\<close>

definition primitive_set :: "builtins \<Rightarrow> kind \<Rightarrow> bool \<Rightarrow> string \<Rightarrow> js_error" where
  "primitive_set B kd own k = (if can_create B kd own k then TypeError else Unmodelled)"

text \<open>\<open>current[k] = v\<close> for a string key.\<close>

fun set_prop :: "builtins \<Rightarrow> jsv \<Rightarrow> string \<Rightarrow> jsv \<Rightarrow> js_error + jsv" where
  "set_prop B (JObj kvs) k v =
     (if can_create B KObject (map_of kvs k \<noteq> None) k
      then Inr (JObj (AList.update k v kvs))
      else Inl Unmodelled)"
| "set_prop B (JArr xs ps) k v =
     (if k = ''length'' then Inl Unmodelled
      else case array_index k of
        Some i \<Rightarrow>
          (if can_create B KArray (i < length xs) k
           then Inr (JArr (array_set xs i v) ps)
           else Inl Unmodelled)
      | None \<Rightarrow>
          (if can_create B KArray (map_of ps k \<noteq> None) k
           then Inr (JArr xs (AList.update k v ps))
           else Inl Unmodelled))"
| "set_prop B (JStr s) k v = Inl (primitive_set B KString (own_prop (JStr s) k \<noteq> None) k)"
| "set_prop B (JNum n) k v = Inl (primitive_set B KNumber False k)"
| "set_prop B (JBool b) k v = Inl (primitive_set B KBoolean False k)"
| "set_prop B (JBuiltin b) k v = Inl Unmodelled"
| "set_prop B _ k v = Inl TypeError"

text \<open>
  \<open>arr[index] = v\<close> for a number read by \<open>parseInt\<close>; the value \<open>arr\<close> is cast to
  an array in the source without a check, so it may be any value that is not falsy.
\<close>

fun set_index :: "builtins \<Rightarrow> jsv \<Rightarrow> nat \<Rightarrow> jsv \<Rightarrow> js_error + jsv" where
  "set_index B (JArr xs ps) n v =
     (if n < max_array_index
      then (if can_create B KArray (n < length xs) (index_key B n)
            then Inr (JArr (array_set xs n v) ps)
            else Inl Unmodelled)
      else (if can_create B KArray (map_of ps (index_key B n) \<noteq> None) (index_key B n)
            then Inr (JArr xs (AList.update (index_key B n) v ps))
            else Inl Unmodelled))"
| "set_index B w n v = set_prop B w (index_key B n) v"

text \<open>
  The loop of \<open>setJSONPath\<close> and the final assignment. With no segment at all,
  \<open>segments[segments.length - 1]\<close> is \<open>undefined\<close> and the key of the final
  assignment is the string \<open>undefined\<close>. In each round the source reads the property,
  stores a fresh container if the value is falsy, reads the property again and goes on
  with what it finds. The value found is then mutated in place; the last step of each
  round below puts the mutated value back where it was read.
\<close>

fun set_walk :: "builtins \<Rightarrow> string list \<Rightarrow> jsv \<Rightarrow> jsv \<Rightarrow> js_error + jsv" where
  "set_walk B [] current v = set_prop B current ''undefined'' v"
| "set_walk B [lastSegment] current v = set_prop B current lastSegment v"
| "set_walk B (segment # next # rest) current v =
     (case arrayMatch False segment of
        Some (propName, Index index) \<Rightarrow>
          (case get_prop B current propName of
             Inl e \<Rightarrow> Inl e
           | Inr found \<Rightarrow>
          (case (if falsy found then set_prop B current propName (JArr [] [])
                 else Inr current) of
             Inl e \<Rightarrow> Inl e
           | Inr current1 \<Rightarrow>
          (case get_prop B current1 propName of
             Inl e \<Rightarrow> Inl e
           | Inr arr \<Rightarrow>
          (case get_index B arr index of
             Inl e \<Rightarrow> Inl e
           | Inr element \<Rightarrow>
          (case (if falsy element then set_index B arr index (JObj [])
                 else Inr arr) of
             Inl e \<Rightarrow> Inl e
           | Inr arr1 \<Rightarrow>
          (case get_index B arr1 index of
             Inl e \<Rightarrow> Inl e
           | Inr below \<Rightarrow>
          (case set_walk B (next # rest) below v of
             Inl e \<Rightarrow> Inl e
           | Inr below' \<Rightarrow>
          (case set_index B arr1 index below' of
             Inl e \<Rightarrow> Inl e
           | Inr arr2 \<Rightarrow> set_prop B current1 propName arr2))))))))
      | _ \<Rightarrow>
          (case get_prop B current segment of
             Inl e \<Rightarrow> Inl e
           | Inr found \<Rightarrow>
          (case (if falsy found then set_prop B current segment (JObj [])
                 else Inr current) of
             Inl e \<Rightarrow> Inl e
           | Inr current1 \<Rightarrow>
          (case get_prop B current1 segment of
             Inl e \<Rightarrow> Inl e
           | Inr below \<Rightarrow>
          (case set_walk B (next # rest) below v of
             Inl e \<Rightarrow> Inl e
           | Inr below' \<Rightarrow> set_prop B current1 segment below')))))"

definition setJSONPath :: "builtins \<Rightarrow> string \<Rightarrow> jsv \<Rightarrow> jsv \<Rightarrow> js_error + jsv" where
  "setJSONPath B path data v =
     (if \<not> starts_with_root path then Inl (InvalidJSONPath path)
      else set_walk B (path_segments path) data v)"

text \<open>
  A value holds the key of a segment when an assignment to that key stores an own
  property on it: it is an object or an array, the key is not the \<open>length\<close> of an
  array, and the key is an own property already or no inherited setter or read-only
  member stands in the way. It holds a numeric index in the same sense when it is an
  array.
\<close>

fun holds_key :: "builtins \<Rightarrow> jsv \<Rightarrow> string \<Rightarrow> bool" where
  "holds_key B (JObj kvs) k = can_create B KObject (map_of kvs k \<noteq> None) k"
| "holds_key B (JArr xs ps) k =
     (k \<noteq> ''length'' \<and>
      (case array_index k of
         Some i \<Rightarrow> can_create B KArray (i < length xs) k
       | None \<Rightarrow> can_create B KArray (map_of ps k \<noteq> None) k))"
| "holds_key B _ k = False"

fun holds_index :: "builtins \<Rightarrow> jsv \<Rightarrow> nat \<Rightarrow> bool" where
  "holds_index B (JArr xs ps) n =
     (if n < max_array_index then can_create B KArray (n < length xs) (index_key B n)
      else can_create B KArray (map_of ps (index_key B n) \<noteq> None) (index_key B n))"
| "holds_index B _ n = False"

text \<open>
  The record fits the path when the path has a last segment that is a plain property
  name, every other segment is a plain name or \<open>name[digits]\<close>, and every value found
  along the path, own or inherited, is either falsy (the assignment replaces it by a
  fresh container) or of the kind the segment addresses: a holder of the property name,
  and under \<open>name[digits]\<close> an array that holds the index.
\<close>

fun path_fits :: "builtins \<Rightarrow> string list \<Rightarrow> jsv \<Rightarrow> bool" where
  "path_fits B [] current = False"
| "path_fits B [lastSegment] current =
     (holds_key B current lastSegment \<and> arrayMatch True lastSegment = None)"
| "path_fits B (segment # next # rest) current =
     (case arrayMatch True segment of
        None \<Rightarrow>
          holds_key B current segment
          \<and> (let found = prop_value B current segment
             in path_fits B (next # rest) (if falsy found then JObj [] else found))
      | Some (propName, Wildcard) \<Rightarrow> False
      | Some (propName, Index n) \<Rightarrow>
          holds_key B current propName
          \<and> (let found = prop_value B current propName;
                 arr = (if falsy found then JArr [] [] else found)
             in holds_index B arr n
                \<and> (let element = index_value B arr n
                   in path_fits B (next # rest) (if falsy element then JObj [] else element))))"

section \<open>Enumerations\<close>

datatype FieldDataType =
  STRING | CURRENCY | NUMBER | CHECKBOX | DATE | SSN | EIN | PHONE | PERCENTAGE

datatype ValidationType =
  REQUIRED | MIN_LENGTH | MAX_LENGTH | PATTERN | RANGE | CUSTOM | CROSS_FIELD | LUHN

datatype ValidationSeverity = ERROR | WARNING | INFO

datatype ComparisonOperator =
    EQUALS | NOT_EQUALS | GREATER_THAN | GREATER_THAN_OR_EQUALS | LESS_THAN
  | LESS_THAN_OR_EQUALS | CONTAINS | NOT_CONTAINS | STARTS_WITH | ENDS_WITH | IS_EMPTY
  | IS_NOT_EMPTY | IN | NOT_IN | MATCHES_PATTERN

datatype LogicalOperator = AND | OR | NOT | XOR

datatype ConditionalAction =
    SHOW | HIDE | ENABLE | DISABLE | SET_VALUE | CLEAR_VALUE | REQUIRE | OPTIONAL
  | APPLY_STYLE

datatype CurrencyFormat = USD | USD_NO_SYMBOL | USD_WITH_CENTS | USD_WHOLE

section \<open>Blueprint interfaces\<close>

text \<open>
  Only the members read by the utility functions are kept. An optional member is an
  \<open>option\<close>. A style object maps style keys to values; the global style object may
  carry, under the key \<open>typeDefaults\<close>, one style object for each data type.
\<close>

datatype style_value =
    Style jsv
  | TypeDefaults "FieldDataType \<Rightarrow> (string \<Rightarrow> style_value option) option"

type_synonym FormattingRules = "string \<Rightarrow> style_value option"

record Condition =
  source :: string
  cond_operator :: ComparisonOperator
  cond_value :: jsv

record ConditionalLogic =
  conditions :: "Condition list"
  logic_operator :: LogicalOperator
  action :: ConditionalAction

record ValidationRule =
  rule_type :: ValidationType
  rule_message :: string
  rule_severity :: "ValidationSeverity option"
  rule_length :: "jsnum option"
  rule_min :: "jsnum option"
  rule_max :: "jsnum option"
  rule_pattern :: "string option"

record DataBinding =
  path :: string

record FieldAnnotation =
  field_id :: string
  lineNumber :: "string option"
  dataType :: FieldDataType
  dataBinding :: DataBinding
  formatting :: "FormattingRules option"
  validations :: "ValidationRule list option"
  conditionalLogic :: "ConditionalLogic option"
  stylePreset :: "string option"

record PageDefinition =
  pageNumber :: nat
  page_fields :: "FieldAnnotation list"

record FormBlueprint =
  pages :: "PageDefinition list"
  globalStyles :: "FormattingRules option"
  stylePresets :: "(string \<Rightarrow> FormattingRules option) option"

section \<open>Field utilities\<close>

fun findFieldById :: "PageDefinition list \<Rightarrow> string \<Rightarrow> FieldAnnotation option" where
  "findFieldById [] fieldId = None"
| "findFieldById (page # rest) fieldId =
     (case find (\<lambda>f. field_id f = fieldId) (page_fields page) of
        Some field \<Rightarrow> Some field
      | None \<Rightarrow> findFieldById rest fieldId)"


subsection \<open>The resolver as the specification describes it\<close>








section \<open>Value formatters\<close>

text \<open>\<open>s.slice(a, b)\<close> for \<open>0 \<le> a \<le> b\<close>.\<close>

definition slice :: "nat \<Rightarrow> nat \<Rightarrow> string \<Rightarrow> string" where
  "slice a b s = take (b - a) (drop a s)"

definition formatSSN :: "string \<Rightarrow> bool \<Rightarrow> bool \<Rightarrow> string" where
  "formatSSN ssn showSeparators masked =
     (let digits = filter is_digit ssn
      in if length digits \<noteq> 9 then ssn
         else if masked then ''***-**-'' @ drop 5 digits
         else if showSeparators
           then slice 0 3 digits @ ''-'' @ slice 3 5 digits @ ''-'' @ drop 5 digits
         else digits)"

section \<open>Conditional logic\<close>

text \<open>
  \<open>a === b\<close>. Objects and arrays are compared by identity in the source; the two
  operands below always come from different structures (the record and the blueprint),
  so they are never identical.
\<close>

fun strict_equals :: "jsv \<Rightarrow> jsv \<Rightarrow> bool" where
  "strict_equals JUndef JUndef = True"
| "strict_equals JNull JNull = True"
| "strict_equals (JBool a) (JBool b) = (a = b)"
| "strict_equals (JNum a) (JNum b) = num_equal a b"
| "strict_equals (JStr a) (JStr b) = (a = b)"
| "strict_equals _ _ = False"

text \<open>The comparison of \<open>Array.prototype.includes\<close>, which finds \<open>NaN\<close>.\<close>

fun same_value_zero :: "jsv \<Rightarrow> jsv \<Rightarrow> bool" where
  "same_value_zero (JNum a) (JNum b) = (a = b)"
| "same_value_zero a b = strict_equals a b"

text \<open>\<open>s.includes(t)\<close> on strings.\<close>

definition includes_string :: "string \<Rightarrow> string \<Rightarrow> bool" where
  "includes_string s t = list_ex (\<lambda>i. take (length t) (drop i s) = t) [0..<Suc (length s)]"

text \<open>The source value of a condition: a JSONPath, or the binding of a field.\<close>

definition sourceValue ::
    "builtins \<Rightarrow> Condition \<Rightarrow> jsv \<Rightarrow> FormBlueprint \<Rightarrow> js_error + jsv" where
  "sourceValue B condition data blueprint =
     (if starts_with_root (source condition) then resolveJSONPath B (source condition) data
      else case findFieldById (pages blueprint) (source condition) of
             Some field \<Rightarrow> resolveJSONPath B (path (dataBinding field)) data
           | None \<Rightarrow> Inr JUndef)"

definition compare_values :: "builtins \<Rightarrow> ComparisonOperator \<Rightarrow> jsv \<Rightarrow> jsv \<Rightarrow> js_error + bool" where
  "compare_values B op sv targetValue =
     (case op of
        EQUALS \<Rightarrow> Inr (strict_equals sv targetValue)
      | NOT_EQUALS \<Rightarrow> Inr (\<not> strict_equals sv targetValue)
      | GREATER_THAN \<Rightarrow> Inr (num_less (Number_of B targetValue) (Number_of B sv))
      | GREATER_THAN_OR_EQUALS \<Rightarrow> Inr (num_less_eq (Number_of B targetValue) (Number_of B sv))
      | LESS_THAN \<Rightarrow> Inr (num_less (Number_of B sv) (Number_of B targetValue))
      | LESS_THAN_OR_EQUALS \<Rightarrow> Inr (num_less_eq (Number_of B sv) (Number_of B targetValue))
      | CONTAINS \<Rightarrow> Inr (includes_string (String_of B sv) (String_of B targetValue))
      | IS_EMPTY \<Rightarrow> Inr (sv = JNull \<or> sv = JUndef \<or> sv = JStr [])
      | IS_NOT_EMPTY \<Rightarrow> Inr (sv \<noteq> JNull \<and> sv \<noteq> JUndef \<and> sv \<noteq> JStr [])
      | IN \<Rightarrow>
          (case targetValue of
             JArr xs ps \<Rightarrow> Inr (list_ex (\<lambda>x. same_value_zero x sv) xs)
           | _ \<Rightarrow> Inr False)
      | NOT_IN \<Rightarrow>
          (case targetValue of
             JArr xs ps \<Rightarrow> Inr (\<not> list_ex (\<lambda>x. same_value_zero x sv) xs)
           | _ \<Rightarrow> Inr True)
      | MATCHES_PATTERN \<Rightarrow>
          (case (sv, targetValue) of
             (JStr s, JStr p) \<Rightarrow>
               (case RegExp_test B p s of None \<Rightarrow> Inl SyntaxError | Some r \<Rightarrow> Inr r)
           | _ \<Rightarrow> Inr False)
      | _ \<Rightarrow> Inr False)"

text \<open>The operators that have a branch of their own in \<open>evaluateCondition\<close>.\<close>

definition handled_operators :: "ComparisonOperator set" where
  "handled_operators =
     {EQUALS, NOT_EQUALS, GREATER_THAN, GREATER_THAN_OR_EQUALS, LESS_THAN,
      LESS_THAN_OR_EQUALS, CONTAINS, IS_EMPTY, IS_NOT_EMPTY, IN, NOT_IN, MATCHES_PATTERN}"

definition evaluateCondition :: "builtins \<Rightarrow> Condition \<Rightarrow> jsv \<Rightarrow> FormBlueprint \<Rightarrow> js_error + bool" where
  "evaluateCondition B condition data blueprint =
     (case sourceValue B condition data blueprint of
        Inl e \<Rightarrow> Inl e
      | Inr sv \<Rightarrow> compare_values B (cond_operator condition) sv (cond_value condition))"

text \<open>
  \<open>Array.prototype.map\<close> with a callback that may throw: the elements are processed
  in order and the first exception ends the whole call.
\<close>

fun map_results :: "('a \<Rightarrow> js_error + 'b) \<Rightarrow> 'a list \<Rightarrow> js_error + 'b list" where
  "map_results f [] = Inr []"
| "map_results f (x # xs) =
     (case f x of
        Inl e \<Rightarrow> Inl e
      | Inr y \<Rightarrow> (case map_results f xs of Inl e \<Rightarrow> Inl e | Inr ys \<Rightarrow> Inr (y # ys)))"

text \<open>
  \<open>!results[0]\<close> reads \<open>undefined\<close> from an empty list, whose negation is true.
\<close>

definition combine :: "LogicalOperator \<Rightarrow> bool list \<Rightarrow> bool" where
  "combine op results =
     (case op of
        AND \<Rightarrow> list_all (\<lambda>r. r) results
      | OR \<Rightarrow> list_ex (\<lambda>r. r) results
      | NOT \<Rightarrow> (case results of [] \<Rightarrow> True | r # _ \<Rightarrow> \<not> r)
      | XOR \<Rightarrow> length (filter (\<lambda>r. r) results) = 1)"

definition evaluateConditionalLogic ::
    "builtins \<Rightarrow> ConditionalLogic \<Rightarrow> jsv \<Rightarrow> FormBlueprint \<Rightarrow> js_error + bool" where
  "evaluateConditionalLogic B logic data blueprint =
     (case map_results (\<lambda>condition. evaluateCondition B condition data blueprint)
             (conditions logic) of
        Inl e \<Rightarrow> Inl e
      | Inr results \<Rightarrow> Inr (combine (logic_operator logic) results))"

section \<open>Validation\<close>

record ValidationError =
  fieldId :: string
  err_lineNumber :: "string option"
  message :: string
  severity :: ValidationSeverity
  rule :: ValidationType
  actualValue :: "jsv option"
  expectedValue :: "jsv option"

record ValidationResult =
  isValid :: bool
  errors :: "ValidationError list"
  warnings :: "ValidationError list"

definition make_error ::
    "FieldAnnotation \<Rightarrow> ValidationRule \<Rightarrow> jsv option \<Rightarrow> jsv option \<Rightarrow> ValidationError" where
  "make_error field r actual expected =
     \<lparr>fieldId = field_id field,
      err_lineNumber = lineNumber field,
      message = rule_message r,
      severity = (case rule_severity r of None \<Rightarrow> ERROR | Some s \<Rightarrow> s),
      rule = rule_type r,
      actualValue = actual,
      expectedValue = expected\<rparr>"

definition string_length :: "string \<Rightarrow> jsnum" where
  "string_length s = Fin (of_nat (length s))"

definition validateRule ::
    "builtins \<Rightarrow> FieldAnnotation \<Rightarrow> jsv \<Rightarrow> ValidationRule \<Rightarrow> js_error + ValidationError option" where
  "validateRule B field val r =
     (case rule_type r of
        REQUIRED \<Rightarrow>
          (if val = JNull \<or> val = JUndef \<or> val = JStr []
           then Inr (Some (make_error field r (Some val) None))
           else Inr None)
      | MIN_LENGTH \<Rightarrow>
          (case val of
             JStr s \<Rightarrow>
               (if num_less (string_length s)
                     (case rule_length r of None \<Rightarrow> Fin 0 | Some n \<Rightarrow> n)
                then Inr (Some (make_error field r (Some (JNum (string_length s)))
                                  (map_option JNum (rule_length r))))
                else Inr None)
           | _ \<Rightarrow> Inr None)
      | MAX_LENGTH \<Rightarrow>
          (case val of
             JStr s \<Rightarrow>
               (if num_less (case rule_length r of None \<Rightarrow> PosInf | Some n \<Rightarrow> n)
                     (string_length s)
                then Inr (Some (make_error field r (Some (JNum (string_length s)))
                                  (map_option JNum (rule_length r))))
                else Inr None)
           | _ \<Rightarrow> Inr None)
      | PATTERN \<Rightarrow>
          (case (val, rule_pattern r) of
             (JStr s, Some p) \<Rightarrow>
               (if p = [] then Inr None
                else case RegExp_test B p s of
                       None \<Rightarrow> Inl SyntaxError
                     | Some matched \<Rightarrow>
                         (if \<not> matched
                          then Inr (Some (make_error field r (Some val) (Some (JStr p))))
                          else Inr None))
           | _ \<Rightarrow> Inr None)
      | RANGE \<Rightarrow>
          (case val of
             JNum v \<Rightarrow>
               (case rule_min r of
                  Some lo \<Rightarrow>
                    (if num_less v lo
                     then Inr (Some (make_error field r (Some val)
                                  (Some (JStr (''min: '' @ String_of B (JNum lo))))))
                     else (case rule_max r of
                             Some hi \<Rightarrow>
                               (if num_less hi v
                                then Inr (Some (make_error field r (Some val)
                                       (Some (JStr (''max: '' @ String_of B (JNum hi))))))
                                else Inr None)
                           | None \<Rightarrow> Inr None))
                | None \<Rightarrow>
                    (case rule_max r of
                       Some hi \<Rightarrow>
                         (if num_less hi v
                          then Inr (Some (make_error field r (Some val)
                                 (Some (JStr (''max: '' @ String_of B (JNum hi))))))
                          else Inr None)
                     | None \<Rightarrow> Inr None))
           | _ \<Rightarrow> Inr None)
      | _ \<Rightarrow> Inr None)"

text \<open>The loop of \<open>validateField\<close> over the rules.\<close>

fun validate_rules ::
    "builtins \<Rightarrow> FieldAnnotation \<Rightarrow> jsv \<Rightarrow> ValidationRule list \<Rightarrow> js_error + ValidationError list" where
  "validate_rules B field val [] = Inr []"
| "validate_rules B field val (r # rs) =
     (case validateRule B field val r of
        Inl e \<Rightarrow> Inl e
      | Inr err \<Rightarrow>
          (case validate_rules B field val rs of
             Inl e \<Rightarrow> Inl e
           | Inr errs \<Rightarrow> Inr (case err of Some e \<Rightarrow> e # errs | None \<Rightarrow> errs)))"

definition validateField ::
    "builtins \<Rightarrow> FieldAnnotation \<Rightarrow> jsv \<Rightarrow> js_error + ValidationError list" where
  "validateField B field val =
     (case validations field of
        None \<Rightarrow> Inr []
      | Some rules \<Rightarrow> validate_rules B field val rules)"

text \<open>
  One iteration of the inner loop of \<open>validateForm\<close>: the field is skipped when its
  logic has action \<open>SHOW\<close> and evaluates to false; otherwise its errors are appended
  to the two result lists by severity.
\<close>

definition validate_one ::
    "builtins \<Rightarrow> FormBlueprint \<Rightarrow> jsv \<Rightarrow> FieldAnnotation
      \<Rightarrow> ValidationError list \<times> ValidationError list
      \<Rightarrow> js_error + (ValidationError list \<times> ValidationError list)" where
  "validate_one B blueprint data field acc =
     (case (case conditionalLogic field of
              None \<Rightarrow> Inr False
            | Some logic \<Rightarrow>
                (case evaluateConditionalLogic B logic data blueprint of
                   Inl e \<Rightarrow> Inl e
                 | Inr shouldShow \<Rightarrow> Inr (\<not> shouldShow \<and> action logic = SHOW))) of
        Inl e \<Rightarrow> Inl e
      | Inr skip \<Rightarrow>
          (if skip then Inr acc
           else case resolveJSONPath B (path (dataBinding field)) data of
                  Inl e \<Rightarrow> Inl e
                | Inr val \<Rightarrow>
                    (case validateField B field val of
                       Inl e \<Rightarrow> Inl e
                     | Inr fieldErrors \<Rightarrow>
                         Inr (fst acc @ filter (\<lambda>e. severity e = ERROR) fieldErrors,
                              snd acc @ filter (\<lambda>e. severity e \<noteq> ERROR) fieldErrors))))"

fun validate_fields ::
    "builtins \<Rightarrow> FormBlueprint \<Rightarrow> jsv \<Rightarrow> FieldAnnotation list
      \<Rightarrow> ValidationError list \<times> ValidationError list
      \<Rightarrow> js_error + (ValidationError list \<times> ValidationError list)" where
  "validate_fields B blueprint data [] acc = Inr acc"
| "validate_fields B blueprint data (field # rest) acc =
     (case validate_one B blueprint data field acc of
        Inl e \<Rightarrow> Inl e
      | Inr acc' \<Rightarrow> validate_fields B blueprint data rest acc')"

fun validate_pages ::
    "builtins \<Rightarrow> FormBlueprint \<Rightarrow> jsv \<Rightarrow> PageDefinition list
      \<Rightarrow> ValidationError list \<times> ValidationError list
      \<Rightarrow> js_error + (ValidationError list \<times> ValidationError list)" where
  "validate_pages B blueprint data [] acc = Inr acc"
| "validate_pages B blueprint data (page # rest) acc =
     (case validate_fields B blueprint data (page_fields page) acc of
        Inl e \<Rightarrow> Inl e
      | Inr acc' \<Rightarrow> validate_pages B blueprint data rest acc')"

definition validateForm :: "builtins \<Rightarrow> FormBlueprint \<Rightarrow> jsv \<Rightarrow> js_error + ValidationResult" where
  "validateForm B blueprint data =
     (case validate_pages B blueprint data (pages blueprint) ([], []) of
        Inl e \<Rightarrow> Inl e
      | Inr (errs, warns) \<Rightarrow>
          Inr \<lparr>isValid = (length errs = 0), errors = errs, warnings = warns\<rparr>)"

section \<open>Currency formatting\<close>

text \<open>\<open>parts.join(sep)\<close>\<close>

fun join_with :: "string \<Rightarrow> string list \<Rightarrow> string" where
  "join_with sep [] = []"
| "join_with sep [p] = p"
| "join_with sep (p # q # ps) = p @ sep @ join_with sep (q # ps)"

text \<open>
  \<open>s.replace(/\B(?=(\d{3})+(?!\d))/g, ",")\<close>. The expression matches the empty
  string at a position that is not a word boundary and is followed by a run of digits
  whose length is a positive multiple of three (the run must end where the last group
  of three ends). \<open>prev\<close> tells whether the character before the position is a word
  character; there is none before the first position.
\<close>

definition group_boundary :: "bool \<Rightarrow> string \<Rightarrow> bool" where
  "group_boundary prev rest =
     ((prev = (case rest of [] \<Rightarrow> False | c # _ \<Rightarrow> is_word c))
      \<and> (let n = length (takeWhile is_digit rest) in 0 < n \<and> n mod 3 = 0))"

fun replace_boundaries :: "bool \<Rightarrow> string \<Rightarrow> string" where
  "replace_boundaries prev [] = []"
| "replace_boundaries prev (c # cs) =
     (if group_boundary prev (c # cs)
      then CHR '','' # c # replace_boundaries (is_word c) cs
      else c # replace_boundaries (is_word c) cs)"

definition addThousandsSeparators :: "string \<Rightarrow> string" where
  "addThousandsSeparators numStr =
     (case split_on CHR ''.'' numStr of
        [] \<Rightarrow> []
      | p # ps \<Rightarrow> join_with ''.'' (replace_boundaries False p # ps))"

definition formatCurrency ::
    "builtins \<Rightarrow> jsnum \<Rightarrow> CurrencyFormat \<Rightarrow> jsnum \<Rightarrow> bool \<Rightarrow> js_error + string" where
  "formatCurrency B val format decimalPlaces thousandsSeparator =
     (let absValue = num_abs val;
          isNegative = num_less val (Fin 0);
          separated = (\<lambda>formatted.
             if thousandsSeparator then addThousandsSeparators formatted else formatted);
          formatted =
            (case format of
               USD \<Rightarrow>
                 (case toFixed B absValue decimalPlaces of
                    None \<Rightarrow> Inl RangeError
                  | Some formatted \<Rightarrow> Inr (''$'' @ separated formatted))
             | USD_NO_SYMBOL \<Rightarrow>
                 (case toFixed B absValue decimalPlaces of
                    None \<Rightarrow> Inl RangeError
                  | Some formatted \<Rightarrow> Inr (separated formatted))
             | USD_WITH_CENTS \<Rightarrow>
                 (case toFixed B absValue (Fin 2) of
                    None \<Rightarrow> Inl RangeError
                  | Some formatted \<Rightarrow> Inr (separated formatted))
             | USD_WHOLE \<Rightarrow>
                 Inr (separated (String_of B (JNum (num_round absValue)))))
      in case formatted of
           Inl e \<Rightarrow> Inl e
         | Inr formatted \<Rightarrow> Inr (if isNegative then ''('' @ formatted @ '')'' else formatted))"

text \<open>
  A string is wrapped in parentheses when it starts with an opening and ends with a
  closing one; it is plain when it contains neither a parenthesis nor a minus sign.
\<close>

definition parenthesised :: "string \<Rightarrow> bool" where
  "parenthesised s = (2 \<le> length s \<and> hd s = CHR ''('' \<and> last s = CHR '')'')"

definition plain :: "string \<Rightarrow> bool" where
  "plain s = (CHR ''-'' \<notin> set s \<and> CHR ''('' \<notin> set s \<and> CHR '')'' \<notin> set s)"

text \<open>
  What \<open>formatCurrency\<close> needs from the run-time library: the renderings it asks for,
  all of them of the non-negative number \<open>|val|\<close>, are plain.
\<close>

definition renders_plain :: "builtins \<Rightarrow> jsnum \<Rightarrow> jsnum \<Rightarrow> bool" where
  "renders_plain B val decimalPlaces =
     (plain (case toFixed B (num_abs val) decimalPlaces of None \<Rightarrow> [] | Some r \<Rightarrow> r)
      \<and> plain (case toFixed B (num_abs val) (Fin 2) of None \<Rightarrow> [] | Some r \<Rightarrow> r)
      \<and> plain (String_of B (JNum (num_round (num_abs val)))))"

section \<open>Sample data\<close>

text \<open>
  An instance of the run-time library for the examples. The theorems below hold for
  every instance; this one is exact only where the text says so and a placeholder
  elsewhere, and the examples stay within the exact part.
  \<^item> \<open>toFixed\<close> follows ECMAScript (truncated digit count between 0 and 100, sign,
    round half up on the exact value) for every number whose absolute value is below
    \<open>10^21\<close> and for the three special values; from \<open>10^21\<close> on it is a
    placeholder.
  \<^item> \<open>String\<close> is exact on strings, \<open>undefined\<close>, \<open>null\<close>, booleans, the
    special numbers and the integers of absolute value below \<open>10^21\<close>.
  \<^item> \<open>Number\<close> is exact on \<open>undefined\<close>, \<open>null\<close>, booleans, numbers, the
    empty string, digit strings denoting at most \<open>2^53\<close>, the empty array and
    objects; on other strings, other arrays and built-ins it is a placeholder.
  \<^item> A pattern made of word characters only matches the strings that contain it; other
    patterns are placeholders.
  \<^item> Of the prototype chain only the members of \<open>Object.prototype\<close> are listed,
    for every kind of value, with \<open>__proto__\<close> as the one member that an assignment
    does not shadow; the further members of the other prototypes are not listed, and
    the properties of the built-ins themselves are placeholders.
\<close>

definition toFixed_decimal :: "real \<Rightarrow> nat \<Rightarrow> string" where
  "toFixed_decimal x f =
     (let m = show_nat (nat \<lfloor>x * 10 ^ f + 1 / 2\<rfloor>)
      in if f = 0 then m
         else let m = replicate (Suc f - length m) CHR ''0'' @ m
              in take (length m - f) m @ ''.'' @ drop (length m - f) m)"

definition sample_toFixed :: "jsnum \<Rightarrow> jsnum \<Rightarrow> string option" where
  "sample_toFixed x d =
     (case (case d of NaN \<Rightarrow> Some 0 | Fin f \<Rightarrow> Some (if 0 \<le> f then \<lfloor>f\<rfloor> else \<lceil>f\<rceil>)
                    | _ \<Rightarrow> None) of
        None \<Rightarrow> None
      | Some f \<Rightarrow>
          (if f < 0 \<or> 100 < f then None
           else case x of
                  NaN \<Rightarrow> Some ''NaN''
                | PosInf \<Rightarrow> Some ''Infinity''
                | NegInf \<Rightarrow> Some ''-Infinity''
                | Fin q \<Rightarrow>
                    Some ((if q < 0 then ''-'' else []) @ toFixed_decimal \<bar>q\<bar> (nat f))))"

definition sample_String :: "jsv \<Rightarrow> string" where
  "sample_String v =
     (case v of
        JUndef \<Rightarrow> ''undefined''
      | JNull \<Rightarrow> ''null''
      | JBool b \<Rightarrow> (if b then ''true'' else ''false'')
      | JNum NaN \<Rightarrow> ''NaN''
      | JNum PosInf \<Rightarrow> ''Infinity''
      | JNum NegInf \<Rightarrow> ''-Infinity''
      | JNum (Fin q) \<Rightarrow> (if q < 0 then ''-'' else []) @ show_nat (nat \<lfloor>\<bar>q\<bar>\<rfloor>)
      | JStr s \<Rightarrow> s
      | JArr xs ps \<Rightarrow> []
      | JObj kvs \<Rightarrow> ''[object Object]''
      | JBuiltin b \<Rightarrow> b)"

definition sample_Number :: "jsv \<Rightarrow> jsnum" where
  "sample_Number v =
     (case v of
        JNull \<Rightarrow> Fin 0
      | JBool b \<Rightarrow> Fin (if b then 1 else 0)
      | JNum n \<Rightarrow> n
      | JStr s \<Rightarrow>
          (if s = [] then Fin 0
           else if list_all is_digit s then Fin (of_nat (parse_nat s)) else NaN)
      | JArr xs ps \<Rightarrow> (if xs = [] then Fin 0 else NaN)
      | _ \<Rightarrow> NaN)"

definition object_prototype_members :: "string list" where
  "object_prototype_members =
     [''constructor'', ''hasOwnProperty'', ''isPrototypeOf'', ''propertyIsEnumerable'',
      ''toLocaleString'', ''toString'', ''valueOf'', ''__defineGetter__'',
      ''__defineSetter__'', ''__lookupGetter__'', ''__lookupSetter__'']"

definition prototype_of :: "kind \<Rightarrow> string" where
  "prototype_of kd =
     (case kd of
        KObject \<Rightarrow> ''Object.prototype''
      | KArray \<Rightarrow> ''Array.prototype''
      | KString \<Rightarrow> ''String.prototype''
      | KNumber \<Rightarrow> ''Number.prototype''
      | KBoolean \<Rightarrow> ''Boolean.prototype'')"

definition sample_inherited :: "kind \<Rightarrow> string \<Rightarrow> string option" where
  "sample_inherited kd k =
     (if k = ''__proto__'' then Some (prototype_of kd)
      else if k \<in> set object_prototype_members then Some (prototype_of kd @ ''.'' @ k)
      else None)"

definition sample_builtins :: builtins where
  "sample_builtins =
     \<lparr>Number_of = sample_Number,
      String_of = sample_String,
      RegExp_test = (\<lambda>p s. if list_all is_word p then Some (includes_string s p) else None),
      toFixed = sample_toFixed,
      inherited = sample_inherited,
      assignable = (\<lambda>kd k. k \<noteq> ''__proto__''),
      builtin_prop = (\<lambda>b k. JUndef),
      builtin_is_object = (\<lambda>b. b \<in> prototype_of ` {KObject, KArray, KString, KNumber, KBoolean}),
      builtin_is_array = (\<lambda>b. b = ''Array.prototype''),
      large_index_key = show_nat\<rparr>"

definition sample_record :: jsv where
  "sample_record =
     JObj [(''taxpayer'', JObj [(''firstName'', JStr ''John''), (''middleName'', JStr [])]),
           (''filingStatus'', JStr ''single''),
           (''dependents'', JArr [JObj [(''name'', JStr ''Ann'')]] [])]"

definition sample_condition :: "string \<Rightarrow> ComparisonOperator \<Rightarrow> jsv \<Rightarrow> Condition" where
  "sample_condition src op v = \<lparr>source = src, cond_operator = op, cond_value = v\<rparr>"

definition sample_logic :: "LogicalOperator \<Rightarrow> Condition list \<Rightarrow> ConditionalLogic" where
  "sample_logic op cs = \<lparr>conditions = cs, logic_operator = op, action = SHOW\<rparr>"

definition is_single :: Condition where
  "is_single = sample_condition ''$.filingStatus'' EQUALS (JStr ''single'')"

definition has_spouse :: Condition where
  "has_spouse = sample_condition ''$.spouse'' IS_NOT_EMPTY JUndef"

definition has_middle_name :: Condition where
  "has_middle_name = sample_condition ''$.taxpayer.middleName'' IS_NOT_EMPTY JUndef"

definition has_first_name :: Condition where
  "has_first_name = sample_condition ''$.taxpayer.firstName'' IS_NOT_EMPTY JUndef"

definition required_rule :: ValidationRule where
  "required_rule =
     \<lparr>rule_type = REQUIRED, rule_message = ''SSN is required'', rule_severity = None,
      rule_length = None, rule_min = None, rule_max = None, rule_pattern = None\<rparr>"

definition ssn_field :: FieldAnnotation where
  "ssn_field =
     \<lparr>field_id = ''ssn'', lineNumber = None, dataType = SSN,
      dataBinding = \<lparr>path = ''$.taxpayer.ssn''\<rparr>, formatting = None,
      validations = Some [required_rule], conditionalLogic = None, stylePreset = None\<rparr>"

definition ssn_blueprint :: FormBlueprint where
  "ssn_blueprint =
     \<lparr>pages = [\<lparr>pageNumber = 1, page_fields = [ssn_field]\<rparr>],
      globalStyles = None, stylePresets = None\<rparr>"







section \<open>Properties of path resolution\<close>

lemma isArray_not_nullish: "isArray B arr \<Longrightarrow> \<not> nullish arr"
  by (cases arr) auto

lemma nullish_iff: "nullish v \<longleftrightarrow> v = JNull \<or> v = JUndef"
  by (cases v) auto

lemma get_prop_value: "\<not> nullish v \<Longrightarrow> get_prop B v k = Inr (prop_value B v k)"
  by (simp add: get_prop_def)

lemma get_index_value: "\<not> nullish v \<Longrightarrow> get_index B v n = Inr (index_value B v n)"
  by (simp add: get_index_def)

text \<open>
  The checks of the loop keep every read away from \<open>null\<close> and \<open>undefined\<close>: the
  walk always returns a value.
\<close>

lemma resolve_walk_returns: "\<exists>v. resolve_walk B segs cur = Inr v"
proof (induction segs arbitrary: cur)
  case Nil
  show ?case by simp
next
  case (Cons segment rest)
  show ?case
  proof (cases "cur = JNull \<or> cur = JUndef")
    case True
    then show ?thesis by auto
  next
    case False
    then have nn: "\<not> nullish cur" by (simp add: nullish_iff)
    show ?thesis
    proof (cases "typeof_object B cur")
      case False
      with \<open>\<not> (cur = JNull \<or> cur = JUndef)\<close> show ?thesis
        by (auto split: option.splits)
    next
      case True
      show ?thesis
      proof (cases "arrayMatch True segment")
        case None
        with False True Cons.IH [of "prop_value B cur segment"] show ?thesis
          by (simp add: get_prop_value [OF nn])
      next
        case (Some pn)
        obtain p ix where pn: "pn = (p, ix)" by (cases pn)
        show ?thesis
        proof (cases "isArray B (prop_value B cur p)")
          case False
          with \<open>\<not> (cur = JNull \<or> cur = JUndef)\<close> True Some pn show ?thesis
            by (simp add: get_prop_value [OF nn])
        next
          case arr: True
          note an = isArray_not_nullish [OF arr]
          show ?thesis
          proof (cases ix)
            case Wildcard
            with \<open>\<not> (cur = JNull \<or> cur = JUndef)\<close> True Some pn arr show ?thesis
              by (simp add: get_prop_value [OF nn])
          next
            case (Index n)
            with \<open>\<not> (cur = JNull \<or> cur = JUndef)\<close> True Some pn arr
              Cons.IH [of "index_value B (prop_value B cur p) n"] show ?thesis
              by (simp add: get_prop_value [OF nn] get_index_value [OF an])
          qed
        qed
      qed
    qed
  qed
qed

lemma resolve_walk_JUndef: "resolve_walk B segs JUndef = Inr JUndef"
  by (cases segs) auto



text \<open>
  As long as no wildcard segment cuts the walk short, resolving a path is resolving its
  prefix and then the remainder from the value reached.
\<close>

lemma resolve_walk_append:
  "\<forall>s\<in>set pre. \<not> is_wildcard s \<Longrightarrow>
   resolve_walk B (pre @ rest) cur =
     (case resolve_walk B pre cur of Inl e \<Rightarrow> Inl e | Inr c \<Rightarrow> resolve_walk B rest c)"
proof (induction pre arbitrary: cur)
  case Nil
  show ?case by simp
next
  case (Cons s pre)
  then have IH: "\<And>c. resolve_walk B (pre @ rest) c =
      (case resolve_walk B pre c of Inl e \<Rightarrow> Inl e | Inr c \<Rightarrow> resolve_walk B rest c)"
    by simp
  from Cons.prems have nw: "\<And>p. arrayMatch True s \<noteq> Some (p, Wildcard)"
    by (simp add: is_wildcard_def)
  show ?case
    using nw
    by (auto simp: IH resolve_walk_JUndef split: option.splits sum.splits index_spec.splits)
qed


lemma resolveJSONPath_returns:
  "starts_with_root P \<Longrightarrow> \<exists>v. resolveJSONPath B P R = Inr v"
  using resolve_walk_returns [of B "path_segments P" R] by (simp add: resolveJSONPath_def)

lemmas path_eval =
  resolveJSONPath_def starts_with_root_def path_segments_def arrayMatch_def is_word_def
  is_digit_def parse_nat_def digit_val_def max_array_index_def array_index_def
  get_prop_def get_index_def from_proto_def index_key_def

lemmas library_eval =
  sample_builtins_def sample_inherited_def object_prototype_members_def prototype_of_def



text \<open>
  Claim C5. When the path reaches, without an earlier wildcard, a segment
  \<open>name[*]\<close> and the value reached so far is an object that holds an array under
  \<open>name\<close>, \<open>resolveJSONPath\<close> returns that array itself; segments after the
  wildcard are never looked at.
\<close>

theorem wildcard_returns_whole_array:
  assumes "starts_with_root P"
    and "path_segments P = pre @ segment # rest"
    and "\<forall>s\<in>set pre. \<not> is_wildcard s"
    and "arrayMatch True segment = Some (propName, Wildcard)"
    and "resolve_walk B pre R = Inr reached"
    and "typeof_object B reached"
    and "get_prop B reached propName = Inr (JArr xs ps)"
  shows "resolveJSONPath B P R = Inr (JArr xs ps)"
proof -
  have "\<not> nullish reached"
    using assms(7) by (auto simp: get_prop_def split: if_splits)
  then have "resolve_walk B (segment # rest) reached = Inr (JArr xs ps)"
    using assms(4,6,7) by (simp add: nullish_iff)
  then show ?thesis
    using assms(1,2,3,5) by (simp add: resolveJSONPath_def resolve_walk_append)
qed

theorem wildcard_returns_whole_array_witness:
  "resolveJSONPath sample_builtins ''$.income.w2Forms[*]''
     (JObj [(''income'', JObj [(''w2Forms'', JArr [JNum (Fin 100), JNum (Fin 250)] [])])])
   = Inr (JArr [JNum (Fin 100), JNum (Fin 250)] [])"
proof -
  have reached: "resolve_walk sample_builtins [''income'']
      (JObj [(''income'', JObj [(''w2Forms'', JArr [JNum (Fin 100), JNum (Fin 250)] [])])])
      = Inr (JObj [(''w2Forms'', JArr [JNum (Fin 100), JNum (Fin 250)] [])])"
    by (simp add: path_eval)
  show ?thesis
    by (rule wildcard_returns_whole_array [where pre = "[''income'']"
          and segment = "''w2Forms[*]''" and rest = "[]" and propName = "''w2Forms''",
          OF _ _ _ _ reached])
      (simp_all add: path_eval is_wildcard_def)
qed

section \<open>Properties of the formatters\<close>

text \<open>
  Claim C7. \<open>formatSSN\<close> returns its input unchanged unless exactly nine digits
  remain after removing every non-digit character. With nine digits \<open>d1 \<dots> d9\<close>
  the result is \<open>***-**-d6d7d8d9\<close> when masking is on (whatever the separator flag),
  \<open>d1d2d3-d4d5-d6d7d8d9\<close> when masking is off and separators are on, and the nine
  digits alone otherwise.
\<close>

theorem formatSSN_cases:
  "(length (filter is_digit ssn) \<noteq> 9 \<longrightarrow> formatSSN ssn showSeparators masked = ssn)
   \<and> (filter is_digit ssn = [d1, d2, d3, d4, d5, d6, d7, d8, d9] \<longrightarrow>
        formatSSN ssn showSeparators True = ''***-**-'' @ [d6, d7, d8, d9]
        \<and> formatSSN ssn True False
            = [d1, d2, d3] @ ''-'' @ [d4, d5] @ ''-'' @ [d6, d7, d8, d9]
        \<and> formatSSN ssn False False = [d1, d2, d3, d4, d5, d6, d7, d8, d9])"
  by (simp add: formatSSN_def slice_def)

theorem formatSSN_cases_witness:
  "formatSSN ''12-345'' True False = ''12-345''
   \<and> formatSSN ''123-45-6789'' False True = ''***-**-6789''
   \<and> formatSSN ''123456789'' True False = ''123-45-6789''
   \<and> formatSSN ''123-45-6789'' False False = ''123456789''"
  using formatSSN_cases [where ssn = "''12-345''" and showSeparators = True and masked = False]
    formatSSN_cases [where ssn = "''123-45-6789''" and showSeparators = False]
    formatSSN_cases [where ssn = "''123456789''" and showSeparators = True]
  by (simp add: is_digit_def)

section \<open>Properties of the formatting resolver\<close>













section \<open>Properties of the condition evaluator\<close>

lemmas condition_eval =
  evaluateCondition_def sourceValue_def compare_values_def sample_condition_def
  sample_logic_def sample_record_def

lemma map_results_all_Inr:
  "map f xs = map Inr ys \<Longrightarrow> map_results f xs = Inr ys"
proof (induction xs arbitrary: ys)
  case Nil
  then show ?case by simp
next
  case (Cons x xs)
  then obtain y ys' where ys: "ys = y # ys'" "f x = Inr y" "map f xs = map Inr ys'"
    by (cases ys) auto
  with Cons.IH [of ys'] show ?case by simp
qed

lemma evaluateConditionalLogic_results:
  "map (\<lambda>c. evaluateCondition B c data blueprint) (conditions logic) = map Inr results \<Longrightarrow>
   evaluateConditionalLogic B logic data blueprint = Inr (combine (logic_operator logic) results)"
  by (simp add: evaluateConditionalLogic_def map_results_all_Inr)

text \<open>
  Claim C3. With operator \<open>NOT\<close> and a non-empty list of conditions that all
  evaluate without an exception, \<open>evaluateConditionalLogic\<close> returns the negation of
  the first condition's result. The results \<open>rs\<close> of the other conditions are
  arbitrary and do not appear in the outcome.
\<close>

theorem not_negates_first_condition_only:
  assumes "logic_operator logic = NOT"
    and "conditions logic = c # cs"
    and "evaluateCondition B c data blueprint = Inr r"
    and "map (\<lambda>c. evaluateCondition B c data blueprint) cs = map Inr rs"
  shows "evaluateConditionalLogic B logic data blueprint = Inr (\<not> r)"
proof -
  have "map (\<lambda>c. evaluateCondition B c data blueprint) (conditions logic) = map Inr (r # rs)"
    using assms(2,3,4) by simp
  from evaluateConditionalLogic_results [OF this] show ?thesis
    using assms(1) by (simp add: combine_def)
qed

theorem not_negates_first_condition_only_witness:
  "evaluateConditionalLogic sample_builtins
      (sample_logic NOT [has_spouse, is_single, has_middle_name]) sample_record
      ssn_blueprint = Inr True
   \<and> evaluateConditionalLogic sample_builtins
      (sample_logic NOT [has_spouse, has_first_name]) sample_record ssn_blueprint = Inr True"
proof -
  have 1: "evaluateCondition sample_builtins has_spouse sample_record ssn_blueprint = Inr False"
    by (simp add: has_spouse_def condition_eval path_eval library_eval)
  have 2: "evaluateCondition sample_builtins is_single sample_record ssn_blueprint = Inr True"
    by (simp add: is_single_def condition_eval path_eval library_eval)
  have 3: "evaluateCondition sample_builtins has_middle_name sample_record ssn_blueprint = Inr False"
    by (simp add: has_middle_name_def condition_eval path_eval library_eval)
  have 4: "evaluateCondition sample_builtins has_first_name sample_record ssn_blueprint = Inr True"
    by (simp add: has_first_name_def condition_eval path_eval library_eval)
  have "evaluateConditionalLogic sample_builtins
      (sample_logic NOT [has_spouse, is_single, has_middle_name]) sample_record
      ssn_blueprint = Inr (\<not> False)"
    by (rule not_negates_first_condition_only [where c = has_spouse
          and cs = "[is_single, has_middle_name]" and rs = "[True, False]"])
      (simp_all add: sample_logic_def 1 2 3)
  moreover have "evaluateConditionalLogic sample_builtins
      (sample_logic NOT [has_spouse, has_first_name]) sample_record ssn_blueprint = Inr (\<not> False)"
    by (rule not_negates_first_condition_only [where c = has_spouse
          and cs = "[has_first_name]" and rs = "[True]"])
      (simp_all add: sample_logic_def 1 4)
  ultimately show ?thesis by simp
qed

lemma exactly_one_true:
  "(length (filter (\<lambda>r. r) results) = 1) \<longleftrightarrow> (\<exists>!i. i < length results \<and> results ! i)"
proof -
  define S where "S = {i. i < length results \<and> results ! i}"
  have len: "length (filter (\<lambda>r. r) results) = card S"
    unfolding S_def by (rule length_filter_conv_card)
  have mem: "\<And>i. i \<in> S \<longleftrightarrow> i < length results \<and> results ! i"
    by (simp add: S_def)
  have "card S = 1 \<longleftrightarrow> (\<exists>!i. i \<in> S)"
  proof
    assume "card S = 1"
    then obtain x where "S = {x}"
      by (auto simp: card_1_singleton_iff)
    then show "\<exists>!i. i \<in> S" by simp
  next
    assume "\<exists>!i. i \<in> S"
    then obtain x where "x \<in> S" "\<And>y. y \<in> S \<Longrightarrow> y = x" by blast
    then have "S = {x}" by blast
    then show "card S = 1" by simp
  qed
  then show ?thesis
    unfolding len mem .
qed

text \<open>
  Claim C8. With operator \<open>XOR\<close> and conditions that evaluate to the booleans
  \<open>results\<close>, \<open>evaluateConditionalLogic\<close> returns true exactly when one single
  position of \<open>results\<close> holds true: \<open>[true, false, false]\<close> gives true and
  \<open>[true, true, false]\<close> gives false.
\<close>

theorem xor_true_iff_exactly_one:
  assumes "logic_operator logic = XOR"
    and "map (\<lambda>c. evaluateCondition B c data blueprint) (conditions logic) = map Inr results"
  shows "evaluateConditionalLogic B logic data blueprint
           = Inr (\<exists>!i. i < length results \<and> results ! i)
         \<and> (results = [True, False, False] \<longrightarrow>
              evaluateConditionalLogic B logic data blueprint = Inr True)
         \<and> (results = [True, True, False] \<longrightarrow>
              evaluateConditionalLogic B logic data blueprint = Inr False)"
proof -
  have e: "evaluateConditionalLogic B logic data blueprint
             = Inr (length (filter (\<lambda>r. r) results) = 1)"
    using evaluateConditionalLogic_results [OF assms(2)] assms(1) by (simp add: combine_def)
  show ?thesis
    by (simp add: e exactly_one_true [symmetric])
qed

theorem xor_true_iff_exactly_one_witness:
  "evaluateConditionalLogic sample_builtins
      (sample_logic XOR [is_single, has_spouse, has_middle_name]) sample_record
      ssn_blueprint = Inr True
   \<and> evaluateConditionalLogic sample_builtins
      (sample_logic XOR [is_single, has_first_name, has_spouse]) sample_record
      ssn_blueprint = Inr False"
proof -
  have 1: "evaluateCondition sample_builtins has_spouse sample_record ssn_blueprint = Inr False"
    by (simp add: has_spouse_def condition_eval path_eval library_eval)
  have 2: "evaluateCondition sample_builtins is_single sample_record ssn_blueprint = Inr True"
    by (simp add: is_single_def condition_eval path_eval library_eval)
  have 3: "evaluateCondition sample_builtins has_middle_name sample_record ssn_blueprint = Inr False"
    by (simp add: has_middle_name_def condition_eval path_eval library_eval)
  have 4: "evaluateCondition sample_builtins has_first_name sample_record ssn_blueprint = Inr True"
    by (simp add: has_first_name_def condition_eval path_eval library_eval)
  have op: "\<And>cs. logic_operator (sample_logic XOR cs) = XOR"
    by (simp add: sample_logic_def)
  have a: "map (\<lambda>c. evaluateCondition sample_builtins c sample_record ssn_blueprint)
             (conditions (sample_logic XOR [is_single, has_spouse, has_middle_name]))
           = map Inr [True, False, False]"
    by (simp add: sample_logic_def 1 2 3)
  have b: "map (\<lambda>c. evaluateCondition sample_builtins c sample_record ssn_blueprint)
             (conditions (sample_logic XOR [is_single, has_first_name, has_spouse]))
           = map Inr [True, True, False]"
    by (simp add: sample_logic_def 1 2 4)
  from xor_true_iff_exactly_one [OF op a] xor_true_iff_exactly_one [OF op b]
  show ?thesis by blast
qed

lemma compare_values_unhandled:
  "op \<notin> handled_operators \<Longrightarrow> compare_values B op sv tv = Inr False"
  by (cases op) (simp_all add: handled_operators_def compare_values_def)

lemma unhandled_iff: "op \<notin> handled_operators \<longleftrightarrow> op \<in> {NOT_CONTAINS, STARTS_WITH, ENDS_WITH}"
  by (cases op) (simp_all add: handled_operators_def)

text \<open>
  Claim C10. For the operators \<open>NOT_CONTAINS\<close>, \<open>STARTS_WITH\<close> and
  \<open>ENDS_WITH\<close>, and for any operator without a branch of its own,
  \<open>evaluateCondition\<close> returns false whatever the record, the source value and the
  comparison value are. The source must resolve: if it names a field of the blueprint,
  the binding path of that field starts with the root marker.
\<close>

theorem unhandled_operator_yields_false:
  assumes "cond_operator condition \<in> {NOT_CONTAINS, STARTS_WITH, ENDS_WITH}
           \<or> cond_operator condition \<notin> handled_operators"
    and "\<forall>field. findFieldById (pages blueprint) (source condition) = Some field \<longrightarrow>
           starts_with_root (path (dataBinding field))"
  shows "evaluateCondition B condition data blueprint = Inr False"
proof -
  have op: "cond_operator condition \<notin> handled_operators"
    using assms(1) by (auto simp: unhandled_iff)
  have "\<exists>sv. sourceValue B condition data blueprint = Inr sv"
  proof (cases "starts_with_root (source condition)")
    case True
    then show ?thesis by (simp add: sourceValue_def resolveJSONPath_returns)
  next
    case False
    show ?thesis
    proof (cases "findFieldById (pages blueprint) (source condition)")
      case None
      with False show ?thesis by (simp add: sourceValue_def)
    next
      case (Some field)
      with assms(2) have "starts_with_root (path (dataBinding field))" by simp
      with False Some show ?thesis by (simp add: sourceValue_def resolveJSONPath_returns)
    qed
  qed
  then obtain sv where "sourceValue B condition data blueprint = Inr sv" ..
  then show ?thesis
    by (simp add: evaluateCondition_def compare_values_unhandled [OF op])
qed

theorem unhandled_operator_yields_false_witness:
  "evaluateCondition sample_builtins
      (sample_condition ''$.taxpayer.firstName'' STARTS_WITH (JStr ''Jo'')) sample_record
      ssn_blueprint = Inr False
   \<and> evaluateCondition sample_builtins
      (sample_condition ''ssn'' NOT_CONTAINS (JStr ''x'')) sample_record ssn_blueprint = Inr False"
proof -
  have f: "findFieldById (pages ssn_blueprint) ''ssn'' = Some ssn_field"
    by (simp add: ssn_blueprint_def ssn_field_def)
  have "evaluateCondition sample_builtins
      (sample_condition ''$.taxpayer.firstName'' STARTS_WITH (JStr ''Jo'')) sample_record
      ssn_blueprint = Inr False"
    by (rule unhandled_operator_yields_false)
      (simp_all add: sample_condition_def ssn_blueprint_def ssn_field_def starts_with_root_def)
  moreover have "evaluateCondition sample_builtins
      (sample_condition ''ssn'' NOT_CONTAINS (JStr ''x'')) sample_record ssn_blueprint = Inr False"
    by (rule unhandled_operator_yields_false)
      (simp_all add: sample_condition_def f, simp add: ssn_field_def starts_with_root_def)
  ultimately show ?thesis by simp
qed

section \<open>Properties of validation\<close>

lemma validateRule_undefined:
  "validateRule B field JUndef r =
     Inr (if rule_type r = REQUIRED then Some (make_error field r (Some JUndef) None) else None)"
  by (cases "rule_type r") (simp_all add: validateRule_def)

lemma validate_rules_undefined:
  "validate_rules B field JUndef rules =
     Inr (map (\<lambda>r. make_error field r (Some JUndef) None)
            (filter (\<lambda>r. rule_type r = REQUIRED) rules))"
  by (induction rules) (simp_all add: validateRule_undefined)

lemma validate_fields_append:
  "validate_fields B blueprint data (xs @ ys) acc =
     (case validate_fields B blueprint data xs acc of
        Inl e \<Rightarrow> Inl e
      | Inr acc' \<Rightarrow> validate_fields B blueprint data ys acc')"
  by (induction xs arbitrary: acc) (simp_all split: sum.splits)

lemma validate_pages_concat:
  "validate_pages B blueprint data ps acc =
     validate_fields B blueprint data (concat (map page_fields ps)) acc"
  by (induction ps arbitrary: acc) (simp_all add: validate_fields_append split: sum.splits)

text \<open>
  Claim C4. Let the blueprint contain a single field, without conditional logic, whose
  binding path resolves to \<open>undefined\<close> in the record, and let exactly one of its
  rules be a \<open>required\<close> rule, declared without severity. Then \<open>validateForm\<close>
  returns a result with \<open>isValid = false\<close>, no warnings and exactly one error; the
  error has rule kind \<open>required\<close>, severity \<open>error\<close> and the field's identifier.
\<close>

theorem required_rule_on_absent_value:
  assumes "concat (map page_fields (pages blueprint)) = [field]"
    and "conditionalLogic field = None"
    and "resolveJSONPath B (path (dataBinding field)) data = Inr JUndef"
    and "validations field = Some rules"
    and "filter (\<lambda>r. rule_type r = REQUIRED) rules = [r]"
    and "rule_severity r = None"
  shows "\<exists>e. validateForm B blueprint data
               = Inr \<lparr>isValid = False, errors = [e], warnings = []\<rparr>
             \<and> rule e = REQUIRED \<and> severity e = ERROR \<and> fieldId e = field_id field"
proof -
  let ?e = "make_error field r (Some JUndef) None"
  have r: "rule_type r = REQUIRED"
    using assms(5) by (metis (mono_tags, lifting) filter_eq_Cons_iff)
  have "validateField B field JUndef = Inr [?e]"
    using assms(4,5) by (simp add: validateField_def validate_rules_undefined)
  moreover have sev: "severity ?e = ERROR"
    using assms(6) by (simp add: make_error_def)
  ultimately have "validate_one B blueprint data field ([], []) = Inr ([?e], [])"
    using assms(2,3) by (simp add: validate_one_def)
  then have "validateForm B blueprint data = Inr \<lparr>isValid = False, errors = [?e], warnings = []\<rparr>"
    using assms(1) by (simp add: validateForm_def validate_pages_concat)
  moreover have "rule ?e = REQUIRED" "fieldId ?e = field_id field"
    using r by (simp_all add: make_error_def)
  ultimately show ?thesis using sev by blast
qed

theorem required_rule_on_absent_value_witness:
  "\<exists>e. validateForm sample_builtins ssn_blueprint sample_record
          = Inr \<lparr>isValid = False, errors = [e], warnings = []\<rparr>
        \<and> rule e = REQUIRED \<and> severity e = ERROR \<and> fieldId e = ''ssn''"
proof -
  have "resolveJSONPath sample_builtins (path (dataBinding ssn_field)) sample_record
          = Inr JUndef"
    by (simp add: ssn_field_def sample_record_def path_eval library_eval)
  from required_rule_on_absent_value [where blueprint = ssn_blueprint and field = ssn_field
      and data = sample_record and rules = "[required_rule]" and r = required_rule
      and B = sample_builtins, OF _ _ this]
  show ?thesis
    by (simp add: ssn_blueprint_def ssn_field_def required_rule_def)
qed

section \<open>Properties of currency formatting\<close>

lemmas currency_eval =
  sample_builtins_def sample_toFixed_def toFixed_decimal_def sample_String_def
  addThousandsSeparators_def group_boundary_def is_word_def is_digit_def digit_char_def

lemma num_abs_idem: "num_abs (num_abs v) = num_abs v"
  by (cases v) simp_all

lemma num_abs_not_negative: "\<not> num_less (num_abs v) (Fin 0)"
  by (cases v) simp_all

lemma formatCurrency_abs:
  "formatCurrency B val format decimalPlaces thousandsSeparator =
     (case formatCurrency B (num_abs val) format decimalPlaces thousandsSeparator of
        Inl e \<Rightarrow> Inl e
      | Inr body \<Rightarrow> Inr (if num_less val (Fin 0) then ''('' @ body @ '')'' else body))"
  by (cases format)
    (simp_all add: formatCurrency_def num_abs_idem num_abs_not_negative Let_def
      split: option.splits)

lemma set_replace_boundaries:
  "set (replace_boundaries prev s) \<subseteq> insert CHR '','' (set s)"
  by (induction s arbitrary: prev) auto

lemma set_join_with:
  "set (join_with sep ps) \<subseteq> set sep \<union> (\<Union>p\<in>set ps. set p)"
  by (induction sep ps rule: join_with.induct) auto

lemma set_split_on_elem: "p \<in> set (split_on d s) \<Longrightarrow> set p \<subseteq> set s"
proof (induction s arbitrary: p)
  case Nil
  then show ?case by simp
next
  case (Cons c cs)
  show ?case
  proof (cases "c = d")
    case True
    with Cons.prems have "p = [] \<or> p \<in> set (split_on d cs)" by simp
    with Cons.IH show ?thesis by auto
  next
    case False
    show ?thesis
    proof (cases "split_on d cs")
      case Nil
      with False Cons.prems show ?thesis by simp
    next
      case (Cons w ws)
      with False Cons.prems have "p = c # w \<or> p \<in> set ws" by simp
      moreover have "set w \<subseteq> set cs" "\<And>q. q \<in> set ws \<Longrightarrow> set q \<subseteq> set cs"
        using Cons.IH Cons by simp_all
      ultimately show ?thesis by auto
    qed
  qed
qed

lemma set_split_on: "(\<Union>p\<in>set (split_on d s). set p) \<subseteq> set s"
  using set_split_on_elem by fastforce

lemma set_addThousandsSeparators:
  "set (addThousandsSeparators s) \<subseteq> {CHR '','', CHR ''.''} \<union> set s"
proof (cases "split_on CHR ''.'' s")
  case Nil
  then show ?thesis by (simp add: addThousandsSeparators_def)
next
  case (Cons p ps)
  have "(\<Union>q\<in>set (p # ps). set q) \<subseteq> set s"
    using set_split_on [of "CHR ''.''" s] Cons by simp
  then have ps: "set p \<subseteq> set s" "(\<Union>q\<in>set ps. set q) \<subseteq> set s" by auto
  have "set (join_with ''.'' (replace_boundaries False p # ps))
          \<subseteq> set ''.'' \<union> (\<Union>q\<in>set (replace_boundaries False p # ps). set q)"
    by (rule set_join_with)
  also have "\<dots> \<subseteq> {CHR '','', CHR ''.''} \<union> set s"
    using ps set_replace_boundaries [of False p] by auto
  finally show ?thesis by (simp add: addThousandsSeparators_def Cons)
qed

lemma plain_addThousandsSeparators: "plain r \<Longrightarrow> plain (addThousandsSeparators r)"
  using set_addThousandsSeparators [of r] by (auto simp: plain_def)

lemma plain_dollar: "plain r \<Longrightarrow> plain (''$'' @ r)"
  by (simp add: plain_def)

lemma formatCurrency_body_plain:
  assumes "renders_plain B val decimalPlaces"
    and "formatCurrency B (num_abs val) format decimalPlaces thousandsSeparator = Inr body"
  shows "plain body"
proof -
  let ?sep = "\<lambda>r. if thousandsSeparator then addThousandsSeparators r else r"
  have sep: "\<And>r. plain r \<Longrightarrow> plain (?sep r)"
    by (simp add: plain_addThousandsSeparators)
  from assms(1) have
    p1: "\<And>r. toFixed B (num_abs val) decimalPlaces = Some r \<Longrightarrow> plain r" and
    p2: "\<And>r. toFixed B (num_abs val) (Fin 2) = Some r \<Longrightarrow> plain r" and
    p3: "plain (String_of B (JNum (num_round (num_abs val))))"
    by (simp_all add: renders_plain_def)
  show ?thesis
  proof (cases format)
    case USD
    with assms(2) obtain r where "toFixed B (num_abs val) decimalPlaces = Some r"
      "body = ''$'' @ ?sep r"
      by (auto simp: formatCurrency_def num_abs_idem num_abs_not_negative split: option.splits)
    with p1 sep plain_dollar show ?thesis by blast
  next
    case USD_NO_SYMBOL
    with assms(2) obtain r where "toFixed B (num_abs val) decimalPlaces = Some r"
      "body = ?sep r"
      by (auto simp: formatCurrency_def num_abs_idem num_abs_not_negative split: option.splits)
    with p1 sep show ?thesis by blast
  next
    case USD_WITH_CENTS
    with assms(2) obtain r where "toFixed B (num_abs val) (Fin 2) = Some r"
      "body = ?sep r"
      by (auto simp: formatCurrency_def num_abs_idem num_abs_not_negative split: option.splits)
    with p2 sep show ?thesis by blast
  next
    case USD_WHOLE
    with assms(2) have "body = ?sep (String_of B (JNum (num_round (num_abs val))))"
      by (auto simp: formatCurrency_def num_abs_idem num_abs_not_negative)
    with p3 sep show ?thesis by metis
  qed
qed

lemma parenthesised_wrap: "parenthesised (''('' @ body @ '')'')"
  by (simp add: parenthesised_def)

lemma plain_not_parenthesised: "plain s \<Longrightarrow> \<not> parenthesised s"
  by (cases s) (auto simp: plain_def parenthesised_def)

text \<open>
  Claim C6. For every number, format, number of decimal places and separator flag, the
  outcome of \<open>formatCurrency\<close> on \<open>val\<close> is its outcome on \<open>|val|\<close>, wrapped in
  parentheses exactly when \<open>val < 0\<close> (an exception of \<open>toFixed\<close> is passed on
  unchanged). Since the run-time library renders the non-negative number \<open>|val|\<close>
  without sign or parentheses, a returned string is parenthesised if and only if
  \<open>val < 0\<close>, and it contains no minus sign.
\<close>

theorem formatCurrency_parentheses_iff_negative:
  "formatCurrency B val format decimalPlaces thousandsSeparator =
     (case formatCurrency B (num_abs val) format decimalPlaces thousandsSeparator of
        Inl e \<Rightarrow> Inl e
      | Inr body \<Rightarrow> Inr (if num_less val (Fin 0) then ''('' @ body @ '')'' else body))
   \<and> (renders_plain B val decimalPlaces \<longrightarrow>
        formatCurrency B val format decimalPlaces thousandsSeparator = Inr s \<longrightarrow>
        (parenthesised s \<longleftrightarrow> num_less val (Fin 0)) \<and> CHR ''-'' \<notin> set s)"
proof (intro conjI impI)
  show "formatCurrency B val format decimalPlaces thousandsSeparator =
     (case formatCurrency B (num_abs val) format decimalPlaces thousandsSeparator of
        Inl e \<Rightarrow> Inl e
      | Inr body \<Rightarrow> Inr (if num_less val (Fin 0) then ''('' @ body @ '')'' else body))"
    by (rule formatCurrency_abs)
next
  assume rp: "renders_plain B val decimalPlaces"
    and s: "formatCurrency B val format decimalPlaces thousandsSeparator = Inr s"
  from s obtain body where
    body: "formatCurrency B (num_abs val) format decimalPlaces thousandsSeparator = Inr body"
    and s_eq: "s = (if num_less val (Fin 0) then ''('' @ body @ '')'' else body)"
    using formatCurrency_abs [of B val format decimalPlaces thousandsSeparator]
    by (auto split: sum.splits)
  have pb: "plain body"
    by (rule formatCurrency_body_plain [OF rp body])
  show "parenthesised s \<longleftrightarrow> num_less val (Fin 0)"
    using s_eq parenthesised_wrap [of body] plain_not_parenthesised [OF pb] by auto
  show "CHR ''-'' \<notin> set s"
    using s_eq pb by (auto simp: plain_def)
qed

theorem formatCurrency_parentheses_iff_negative_witness:
  "formatCurrency sample_builtins (Fin (- 2469 / 2)) USD (Fin 2) True = Inr ''($1,234.50)''
   \<and> formatCurrency sample_builtins (Fin (2469 / 2)) USD (Fin 2) True = Inr ''$1,234.50''
   \<and> parenthesised ''($1,234.50)'' \<and> \<not> parenthesised ''$1,234.50''
   \<and> CHR ''-'' \<notin> set ''($1,234.50)''"
proof -
  have pos: "formatCurrency sample_builtins (Fin (2469 / 2)) USD (Fin 2) True = Inr ''$1,234.50''"
    by (simp add: formatCurrency_def currency_eval)
  have rp: "renders_plain sample_builtins (Fin (- 2469 / 2)) (Fin 2)"
    by (simp add: renders_plain_def plain_def currency_eval)
  have rp': "renders_plain sample_builtins (Fin (2469 / 2)) (Fin 2)"
    by (simp add: renders_plain_def plain_def currency_eval)
  note neg_thm = formatCurrency_parentheses_iff_negative
      [of sample_builtins "Fin (- 2469 / 2)" USD "Fin 2" True "''($1,234.50)''"]
  note pos_thm = formatCurrency_parentheses_iff_negative
      [of sample_builtins "Fin (2469 / 2)" USD "Fin 2" True "''$1,234.50''"]
  have neg: "formatCurrency sample_builtins (Fin (- 2469 / 2)) USD (Fin 2) True
               = Inr ''($1,234.50)''"
    using neg_thm pos by simp
  from neg_thm rp neg have "parenthesised ''($1,234.50)''" "CHR ''-'' \<notin> set ''($1,234.50)''"
    by simp_all
  moreover from pos_thm rp' pos have "\<not> parenthesised ''$1,234.50''"
    by simp
  ultimately show ?thesis using neg pos by simp
qed

section \<open>Properties of path assignment\<close>

lemma arrayMatch_False:
  "arrayMatch False s =
     (case arrayMatch True s of Some (p, Wildcard) \<Rightarrow> None | r \<Rightarrow> r)"
proof (cases "dropWhile is_word s")
  case Nil
  show ?thesis unfolding arrayMatch_def Let_def Nil by simp
next
  case (Cons c r)
  show ?thesis unfolding arrayMatch_def Let_def Cons by simp
qed

lemma arrayMatch_True_None: "arrayMatch True s = None \<Longrightarrow> arrayMatch False s = None"
  by (simp add: arrayMatch_False)

lemma arrayMatch_True_Index:
  "arrayMatch True s = Some (p, Index n) \<Longrightarrow> arrayMatch False s = Some (p, Index n)"
  by (simp add: arrayMatch_False)

lemma array_set_nth: "array_set xs n v ! n = v"
  by (auto simp: array_set_def nth_append)

lemma array_set_length: "n < length (array_set xs n v)"
  by (auto simp: array_set_def)

lemma array_index_not_length: "array_index k = Some i \<Longrightarrow> k \<noteq> ''length''"
  by (auto simp: array_index_def is_digit_def split: if_splits)

lemma holds_key_object: "holds_key B cur k \<Longrightarrow> typeof_object B cur \<and> \<not> nullish cur"
  by (cases cur) auto

lemma holds_index_array: "holds_index B arr n \<Longrightarrow> isArray B arr \<and> \<not> nullish arr"
  by (cases arr) auto

text \<open>An assignment to a key the value holds is found again by a read of that key.\<close>

lemma set_prop_prop_value:
  assumes "holds_key B cur k"
  obtains cur' where "set_prop B cur k v = Inr cur'" "prop_value B cur' k = v"
    "holds_key B cur' k"
proof (cases cur)
  case (JObj kvs)
  have "set_prop B cur k v = Inr (JObj (AList.update k v kvs))"
    "prop_value B (JObj (AList.update k v kvs)) k = v"
    "holds_key B (JObj (AList.update k v kvs)) k"
    using JObj assms by (simp_all add: update_conv' can_create_def)
  then show thesis by (rule that)
next
  case (JArr xs ps)
  with assms have nl: "k \<noteq> ''length''" by simp
  show thesis
  proof (cases "array_index k")
    case None
    have "set_prop B cur k v = Inr (JArr xs (AList.update k v ps))"
      "prop_value B (JArr xs (AList.update k v ps)) k = v"
      "holds_key B (JArr xs (AList.update k v ps)) k"
      using JArr assms nl None by (simp_all add: update_conv' can_create_def)
    then show thesis by (rule that)
  next
    case (Some i)
    have "set_prop B cur k v = Inr (JArr (array_set xs i v) ps)"
      "prop_value B (JArr (array_set xs i v) ps) k = v"
      "holds_key B (JArr (array_set xs i v) ps) k"
      using JArr assms nl Some
      by (simp_all add: array_set_nth array_set_length can_create_def)
    then show thesis by (rule that)
  qed
qed (use assms in auto)

lemma set_index_index_value:
  assumes "holds_index B arr n"
  obtains arr' where "set_index B arr n v = Inr arr'" "index_value B arr' n = v"
    "holds_index B arr' n"
proof -
  from assms obtain xs ps where arr: "arr = JArr xs ps" by (cases arr) auto
  show thesis
  proof (cases "n < max_array_index")
    case True
    have "set_index B arr n v = Inr (JArr (array_set xs n v) ps)"
      "index_value B (JArr (array_set xs n v) ps) n = v"
      "holds_index B (JArr (array_set xs n v) ps) n"
      using arr assms True by (simp_all add: array_set_nth array_set_length can_create_def)
    then show thesis by (rule that)
  next
    case False
    have "set_index B arr n v = Inr (JArr xs (AList.update (index_key B n) v ps))"
      "index_value B (JArr xs (AList.update (index_key B n) v ps)) n = v"
      "holds_index B (JArr xs (AList.update (index_key B n) v ps)) n"
      using arr assms False by (simp_all add: update_conv' can_create_def)
    then show thesis by (rule that)
  qed
qed

lemma resolve_walk_plain_step:
  assumes "arrayMatch True segment = None" "holds_key B cur segment"
  shows "resolve_walk B (segment # rest) cur = resolve_walk B rest (prop_value B cur segment)"
proof -
  from holds_key_object [OF assms(2)] have "typeof_object B cur" "\<not> nullish cur" by simp_all
  then show ?thesis
    using assms(1) by (simp add: get_prop_value nullish_iff)
qed

lemma resolve_walk_index_step:
  assumes "arrayMatch True segment = Some (p, Index n)" "holds_key B cur p"
    and "holds_index B (prop_value B cur p) n"
  shows "resolve_walk B (segment # rest) cur
           = resolve_walk B rest (index_value B (prop_value B cur p) n)"
proof -
  from holds_key_object [OF assms(2)] have c: "typeof_object B cur" "\<not> nullish cur"
    by simp_all
  from holds_index_array [OF assms(3)] have a: "isArray B (prop_value B cur p)"
    "\<not> nullish (prop_value B cur p)" by simp_all
  show ?thesis
    using assms(1) c a by (simp add: get_prop_value get_index_value nullish_iff)
qed

lemma set_walk_plain_step:
  assumes m: "arrayMatch True segment = None"
    and h: "holds_key B current segment"
    and below: "set_walk B (next # rest)
        (if falsy (prop_value B current segment) then JObj []
         else prop_value B current segment) v = Inr below'"
  obtains cur' where "set_walk B (segment # next # rest) current v = Inr cur'"
    "prop_value B cur' segment = below'" "holds_key B cur' segment"
proof -
  have nn: "\<not> nullish current" using holds_key_object [OF h] by simp
  have m': "arrayMatch False segment = None" by (rule arrayMatch_True_None [OF m])
  define start where "start = (if falsy (prop_value B current segment) then JObj []
         else prop_value B current segment)"
  obtain c1 where c1: "(if falsy (prop_value B current segment)
        then set_prop B current segment (JObj []) else Inr current) = Inr c1"
    "prop_value B c1 segment = start" "holds_key B c1 segment"
  proof (cases "falsy (prop_value B current segment)")
    case True
    from h obtain c where "set_prop B current segment (JObj []) = Inr c"
      "prop_value B c segment = JObj []" "holds_key B c segment"
      by (rule set_prop_prop_value)
    with True that show thesis by (simp add: start_def)
  next
    case False
    with h that show thesis by (simp add: start_def)
  qed
  have nn1: "\<not> nullish c1" using holds_key_object [OF c1(3)] by simp
  have below1: "set_walk B (next # rest) start v = Inr below'"
    using below unfolding start_def .
  from c1(3) obtain c2 where c2: "set_prop B c1 segment below' = Inr c2"
    "prop_value B c2 segment = below'" "holds_key B c2 segment"
    by (rule set_prop_prop_value)
  have "set_walk B (segment # next # rest) current v = Inr c2"
    using m' c1(1,2) below1 c2(1)
    by (simp add: get_prop_value [OF nn] get_prop_value [OF nn1])
  then show thesis using c2(2,3) by (rule that)
qed

lemma set_walk_index_step:
  assumes m: "arrayMatch True segment = Some (p, Index n)"
    and h: "holds_key B current p"
    and hi: "holds_index B
        (if falsy (prop_value B current p) then JArr [] [] else prop_value B current p) n"
    and below: "set_walk B (next # rest)
        (let arr = (if falsy (prop_value B current p) then JArr [] []
                    else prop_value B current p);
             element = index_value B arr n
         in if falsy element then JObj [] else element) v = Inr below'"
  obtains cur' where "set_walk B (segment # next # rest) current v = Inr cur'"
    "holds_key B cur' p" "holds_index B (prop_value B cur' p) n"
    "index_value B (prop_value B cur' p) n = below'"
proof -
  have nn: "\<not> nullish current" using holds_key_object [OF h] by simp
  have m': "arrayMatch False segment = Some (p, Index n)"
    by (rule arrayMatch_True_Index [OF m])
  define arr where "arr = (if falsy (prop_value B current p) then JArr [] []
                           else prop_value B current p)"
  have harr: "holds_index B arr n" using hi by (simp add: arr_def)
  have an: "\<not> nullish arr" using holds_index_array [OF harr] by simp
  obtain c1 where c1: "(if falsy (prop_value B current p)
        then set_prop B current p (JArr [] []) else Inr current) = Inr c1"
    "prop_value B c1 p = arr" "holds_key B c1 p"
  proof (cases "falsy (prop_value B current p)")
    case True
    from h obtain c where "set_prop B current p (JArr [] []) = Inr c"
      "prop_value B c p = JArr [] []" "holds_key B c p" by (rule set_prop_prop_value)
    with True that show thesis by (simp add: arr_def)
  next
    case False
    with h that show thesis by (simp add: arr_def)
  qed
  have nn1: "\<not> nullish c1" using holds_key_object [OF c1(3)] by simp
  define start where "start = (if falsy (index_value B arr n) then JObj []
                               else index_value B arr n)"
  obtain arr1 where arr1: "(if falsy (index_value B arr n)
        then set_index B arr n (JObj []) else Inr arr) = Inr arr1"
    "index_value B arr1 n = start" "holds_index B arr1 n"
  proof (cases "falsy (index_value B arr n)")
    case True
    from harr obtain b where "set_index B arr n (JObj []) = Inr b"
      "index_value B b n = JObj []" "holds_index B b n" by (rule set_index_index_value)
    with True that show thesis by (simp add: start_def)
  next
    case False
    with harr that show thesis by (simp add: start_def)
  qed
  have an1: "\<not> nullish arr1" using holds_index_array [OF arr1(3)] by simp
  have below1: "set_walk B (next # rest) start v = Inr below'"
    using below unfolding start_def arr_def Let_def .
  from arr1(3) obtain arr2 where arr2: "set_index B arr1 n below' = Inr arr2"
    "index_value B arr2 n = below'" "holds_index B arr2 n" by (rule set_index_index_value)
  from c1(3) obtain c2 where c2: "set_prop B c1 p arr2 = Inr c2" "prop_value B c2 p = arr2"
    "holds_key B c2 p" by (rule set_prop_prop_value)
  have "set_walk B (segment # next # rest) current v = Inr c2"
    using m' c1(1,2) arr1(1,2) below1 arr2(1) c2(1)
    by (simp add: get_prop_value [OF nn] get_prop_value [OF nn1]
        get_index_value [OF an] get_index_value [OF an1])
  moreover have "holds_index B (prop_value B c2 p) n" "index_value B (prop_value B c2 p) n = below'"
    using c2(2) arr2(2,3) by simp_all
  ultimately show thesis using c2(3) by (intro that)
qed

text \<open>
  The loop and the final assignment succeed on a record that fits the path, and
  resolving the same segments in the result finds the assigned value.
\<close>

lemma set_walk_round_trip:
  "path_fits B segs cur \<Longrightarrow>
   \<exists>cur'. set_walk B segs cur v = Inr cur' \<and> resolve_walk B segs cur' = Inr v"
proof (induction segs arbitrary: cur)
  case Nil
  then show ?case by simp
next
  case (Cons segment segs)
  show ?case
  proof (cases segs)
    case Nil
    with Cons.prems have h: "holds_key B cur segment" and m: "arrayMatch True segment = None"
      by simp_all
    from h obtain c where c: "set_prop B cur segment v = Inr c"
      "prop_value B c segment = v" "holds_key B c segment" by (rule set_prop_prop_value)
    have "resolve_walk B [segment] c = Inr v"
      using resolve_walk_plain_step [OF m c(3), of "[]"] c(2) by simp
    with c(1) Nil show ?thesis by simp
  next
    case (Cons "next" rest)
    note segs = Cons
    show ?thesis
    proof (cases "arrayMatch True segment")
      case None
      with Cons.prems segs have h: "holds_key B cur segment"
        and fits: "path_fits B (next # rest)
            (if falsy (prop_value B cur segment) then JObj [] else prop_value B cur segment)"
        by (simp_all add: Let_def)
      from Cons.IH [unfolded segs, OF fits] obtain below' where
        below: "set_walk B (next # rest)
            (if falsy (prop_value B cur segment) then JObj [] else prop_value B cur segment) v
            = Inr below'" and res: "resolve_walk B (next # rest) below' = Inr v"
        by blast
      from None h below obtain cur' where cur':
        "set_walk B (segment # next # rest) cur v = Inr cur'"
        "prop_value B cur' segment = below'" "holds_key B cur' segment"
        by (rule set_walk_plain_step)
      have "resolve_walk B (segment # next # rest) cur' = Inr v"
        using resolve_walk_plain_step [OF None cur'(3), of "next # rest"] cur'(2) res by simp
      with cur'(1) segs show ?thesis by simp
    next
      case (Some pn)
      obtain p ix where pn: "pn = (p, ix)" by (cases pn)
      show ?thesis
      proof (cases ix)
        case Wildcard
        with Cons.prems segs Some pn show ?thesis by simp
      next
        case (Index n)
        note m = Some [unfolded pn Index]
        let ?arr = "if falsy (prop_value B cur p) then JArr [] [] else prop_value B cur p"
        let ?start = "let arr = ?arr; element = index_value B arr n
                      in if falsy element then JObj [] else element"
        from Cons.prems segs m have h: "holds_key B cur p"
          and hi: "holds_index B ?arr n"
          and fits: "path_fits B (next # rest) ?start"
          by (simp_all add: Let_def)
        from Cons.IH [unfolded segs, OF fits] obtain below' where
          below: "set_walk B (next # rest) ?start v = Inr below'"
          and res: "resolve_walk B (next # rest) below' = Inr v"
          by blast
        from m h hi below obtain cur' where cur':
          "set_walk B (segment # next # rest) cur v = Inr cur'"
          "holds_key B cur' p" "holds_index B (prop_value B cur' p) n"
          "index_value B (prop_value B cur' p) n = below'"
          by (rule set_walk_index_step)
        have "resolve_walk B (segment # next # rest) cur' = Inr v"
          using resolve_walk_index_step [OF m cur'(2,3), of "next # rest"] cur'(4) res
          by simp
        with cur'(1) segs show ?thesis by simp
      qed
    qed
  qed
qed

lemmas set_eval = setJSONPath_def array_set_def digit_char_def can_create_def primitive_set_def

text \<open>
  Claim C1, as amended. Let the path start with the root marker and have at least one
  segment, the last one a plain property name and the others plain names or
  \<open>name[digits]\<close>, and let every value found along the path in the record, own or
  inherited, be falsy or a container of the kind the segment addresses: an object or an
  array at a property name, an array under \<open>name[digits]\<close>, where the name is not the
  \<open>length\<close> of an array and no inherited member that an assignment cannot shadow has
  the name or the index (\<open>path_fits\<close>). Then \<open>setJSONPath\<close> returns the updated
  record, and \<open>resolveJSONPath\<close> with the same path finds the assigned value in it.
\<close>

theorem set_then_resolve_round_trip:
  assumes "starts_with_root P" and "path_fits B (path_segments P) R"
  shows "\<exists>R'. setJSONPath B P R V = Inr R' \<and> resolveJSONPath B P R' = Inr V"
  using set_walk_round_trip [OF assms(2), of V] assms(1)
  by (simp add: setJSONPath_def resolveJSONPath_def)

theorem set_then_resolve_round_trip_witness:
  "path_fits sample_builtins (path_segments ''$.taxpayer.dependents[1].name'')
      (JObj [(''taxpayer'', JObj [(''firstName'', JStr ''John'')])])
   \<and> setJSONPath sample_builtins ''$.taxpayer.dependents[1].name''
        (JObj [(''taxpayer'', JObj [(''firstName'', JStr ''John'')])]) (JStr ''Ann'')
      = Inr (JObj [(''taxpayer'', JObj [(''firstName'', JStr ''John''),
                (''dependents'', JArr [JUndef, JObj [(''name'', JStr ''Ann'')]] [])])])
   \<and> (\<exists>R'. setJSONPath sample_builtins ''$.taxpayer.dependents[1].name''
              (JObj [(''taxpayer'', JObj [(''firstName'', JStr ''John'')])]) (JStr ''Ann'')
            = Inr R'
          \<and> resolveJSONPath sample_builtins ''$.taxpayer.dependents[1].name'' R'
            = Inr (JStr ''Ann''))"
proof -
  have fits: "path_fits sample_builtins (path_segments ''$.taxpayer.dependents[1].name'')
      (JObj [(''taxpayer'', JObj [(''firstName'', JStr ''John'')])])"
    by (simp add: path_eval library_eval set_eval)
  have root: "starts_with_root ''$.taxpayer.dependents[1].name''"
    by (simp add: starts_with_root_def)
  have "setJSONPath sample_builtins ''$.taxpayer.dependents[1].name''
        (JObj [(''taxpayer'', JObj [(''firstName'', JStr ''John'')])]) (JStr ''Ann'')
      = Inr (JObj [(''taxpayer'', JObj [(''firstName'', JStr ''John''),
                (''dependents'', JArr [JUndef, JObj [(''name'', JStr ''Ann'')]] [])])])"
    by (simp add: set_eval path_eval library_eval)
  with fits set_then_resolve_round_trip [OF root fits, of "JStr ''Ann''"]
  show ?thesis by simp
qed

text \<open>
  Claim C1 as stated, for every record and every valid path without wildcard, does
  not hold. Where the record holds an object under a name that the path indexes as an
  array, \<open>setJSONPath\<close> stores the new element under the property \<open>0\<close> of that
  object, and \<open>resolveJSONPath\<close>, which insists on an array, returns
  \<open>undefined\<close>.
\<close>

theorem set_then_resolve_counterexample:
  "setJSONPath sample_builtins ''$.a[0].b'' (JObj [(''a'', JObj [])]) (JNum (Fin 1))
     = Inr (JObj [(''a'', JObj [(''0'', JObj [(''b'', JNum (Fin 1))])])])
   \<and> resolveJSONPath sample_builtins ''$.a[0].b''
       (JObj [(''a'', JObj [(''0'', JObj [(''b'', JNum (Fin 1))])])])
     = Inr JUndef"
  by (simp add: set_eval path_eval library_eval)

text \<open>
  The last segment is never parsed: an indexed last segment becomes a property of that
  literal name, and a path without segments assigns to the key \<open>undefined\<close>.
\<close>

lemma setJSONPath_indexed_last_segment:
  "setJSONPath sample_builtins ''$.items[0]'' (JObj []) v = Inr (JObj [(''items[0]'', v)])
   \<and> resolveJSONPath sample_builtins ''$.items[0]'' (JObj [(''items[0]'', v)]) = Inr JUndef"
  by (simp add: set_eval path_eval library_eval)

lemma setJSONPath_without_segment:
  "setJSONPath sample_builtins ''$'' (JObj []) v = Inr (JObj [(''undefined'', v)])
   \<and> resolveJSONPath sample_builtins ''$'' (JObj [(''undefined'', v)])
       = Inr (JObj [(''undefined'', v)])"
  by (simp add: set_eval path_eval library_eval)

text \<open>A primitive value in the way makes the strict-mode assignment throw.\<close>

lemma setJSONPath_below_primitive:
  "setJSONPath sample_builtins ''$.a.b'' (JObj [(''a'', JNum (Fin 5))]) v = Inl TypeError"
  by (simp add: set_eval path_eval library_eval)

lemma setJSONPath_existing_array:
  "setJSONPath sample_builtins ''$.rows[0].total''
     (JObj [(''rows'', JArr [JObj [(''total'', JNum (Fin 1))], JNull] [])]) v
    = Inr (JObj [(''rows'', JArr [JObj [(''total'', v)], JNull] [])])"
  by (simp add: set_eval path_eval library_eval)

text \<open>
  A named property of an array, and an index from \<open>2^32 - 1\<close> on, which is a named
  property as well, are stored on the array and found again.
\<close>

lemma setJSONPath_named_property_of_array:
  "setJSONPath sample_builtins ''$.a.b'' (JObj [(''a'', JArr [JNum (Fin 1)] [])]) v
     = Inr (JObj [(''a'', JArr [JNum (Fin 1)] [(''b'', v)])])
   \<and> resolveJSONPath sample_builtins ''$.a.b'' (JObj [(''a'', JArr [JNum (Fin 1)] [(''b'', v)])])
     = Inr v"
  by (simp add: set_eval path_eval library_eval)

lemma setJSONPath_beyond_array_indices:
  "setJSONPath sample_builtins ''$.a[4294967295].b'' (JObj []) v
     = Inr (JObj [(''a'', JArr [] [(''4294967295'', JObj [(''b'', v)])])])
   \<and> resolveJSONPath sample_builtins ''$.a[4294967295].b''
        (JObj [(''a'', JArr [] [(''4294967295'', JObj [(''b'', v)])])])
     = Inr v"
  by (simp add: set_eval path_eval library_eval)

text \<open>
  Reads go through the prototype chain; a record does not fit a path that would assign
  below an inherited member or to \<open>__proto__\<close>.
\<close>

lemma inherited_members_are_found:
  "resolveJSONPath sample_builtins ''$.constructor'' (JObj [])
     = Inr (JBuiltin ''Object.prototype.constructor'')
   \<and> resolveJSONPath sample_builtins ''$.__proto__'' (JObj []) = Inr (JBuiltin ''Object.prototype'')
   \<and> resolveJSONPath sample_builtins ''$.toString.x'' (JObj []) = Inr JUndef"
  by (simp add: path_eval library_eval)

lemma setJSONPath_through_inherited_members:
  "setJSONPath sample_builtins ''$.toString.x'' (JObj []) v = Inl Unmodelled
   \<and> setJSONPath sample_builtins ''$.__proto__'' (JObj []) v = Inl Unmodelled
   \<and> \<not> path_fits sample_builtins (path_segments ''$.toString.x'') (JObj [])
   \<and> \<not> path_fits sample_builtins (path_segments ''$.__proto__'') (JObj [])"
  by (simp add: set_eval path_eval library_eval)

end
